theory Spec2Isabelle
  imports Main "HOL-Library.Multiset" "HOL-Library.Product_Lexorder"
begin

section \<open>Strings, characters and exceptions\<close>

text \<open>
  A Python \<open>str\<close> is modelled as a \<open>string\<close>; a \<open>char\<close> stands for the code point with
  the same number (0 to 255). Code points above 255 are outside the model. The exceptions
  that the modelled code can meet are the two below.
\<close>

datatype error = ValueError | TypeError

definition is_space :: "char \<Rightarrow> bool" where
  \<comment> \<open>\<open>str.isspace\<close> and the regular expression class \<open>\s\<close> on code points below 256\<close>
  "is_space c =
     (let n = (of_char c :: nat)
      in (9 \<le> n \<and> n \<le> 13) \<or> (28 \<le> n \<and> n \<le> 32) \<or> n = 133 \<or> n = 160)"

definition is_digit :: "char \<Rightarrow> bool" where
  \<comment> \<open>the regular expression class \<open>\d\<close> on code points below 256\<close>
  "is_digit c = (let n = (of_char c :: nat) in 48 \<le> n \<and> n \<le> 57)"

definition digit_val :: "char \<Rightarrow> int" where
  "digit_val c = (of_char c :: int) - 48"

definition lstrip :: "string \<Rightarrow> string" where
  "lstrip s = dropWhile is_space s"

definition rstrip :: "string \<Rightarrow> string" where
  "rstrip s = rev (dropWhile is_space (rev s))"

definition strip :: "string \<Rightarrow> string" where
  \<comment> \<open>\<open>str.strip()\<close> without argument\<close>
  "strip s = rstrip (lstrip s)"

definition replace_char :: "char \<Rightarrow> char \<Rightarrow> string \<Rightarrow> string" where
  \<comment> \<open>\<open>str.replace(a, b)\<close> for one-character strings\<close>
  "replace_char a b s = map (\<lambda>c. if c = a then b else c) s"

definition int_of_str :: "string \<Rightarrow> int" where
  \<comment> \<open>\<open>int(s)\<close> on a run of digits, possibly after blanks (the only arguments it gets here)\<close>
  "int_of_str s = foldl (\<lambda>n c. 10 * n + digit_val c) 0 (dropWhile is_space s)"

section \<open>Date and time values\<close>

text \<open>
  \<open>datetime.datetime\<close>: the calendar fields, and \<open>tzinfo\<close> as the UTC offset in
  microseconds (\<open>None\<close> for a naive value).
\<close>

record datetime =
  year :: int
  month :: int
  day :: int
  hour :: int
  minute :: int
  second :: int
  microsecond :: int
  tzinfo :: "int option"

definition is_leap :: "int \<Rightarrow> bool" where
  "is_leap y = (y mod 4 = 0 \<and> (y mod 100 \<noteq> 0 \<or> y mod 400 = 0))"

definition days_in_month :: "int \<Rightarrow> int \<Rightarrow> int" where
  "days_in_month y m =
     (if m = 2 then (if is_leap y then 29 else 28)
      else if m = 4 \<or> m = 6 \<or> m = 9 \<or> m = 11 then 30 else 31)"

definition valid_fields :: "int \<Rightarrow> int \<Rightarrow> int \<Rightarrow> int \<Rightarrow> int \<Rightarrow> int \<Rightarrow> int \<Rightarrow> bool" where
  "valid_fields y m d H M S us =
     (1 \<le> y \<and> y \<le> 9999 \<and> 1 \<le> m \<and> m \<le> 12 \<and> 1 \<le> d \<and> d \<le> days_in_month y m \<and>
      0 \<le> H \<and> H \<le> 23 \<and> 0 \<le> M \<and> M \<le> 59 \<and> 0 \<le> S \<and> S \<le> 59 \<and>
      0 \<le> us \<and> us \<le> 999999)"

definition mk_datetime ::
  "int \<Rightarrow> int \<Rightarrow> int \<Rightarrow> int \<Rightarrow> int \<Rightarrow> int \<Rightarrow> int \<Rightarrow> int option \<Rightarrow> datetime" where
  "mk_datetime y m d H M S us tz =
     \<lparr>year = y, month = m, day = d, hour = H, minute = M, second = S,
      microsecond = us, tzinfo = tz\<rparr>"

definition datetime_new ::
  "int \<Rightarrow> int \<Rightarrow> int \<Rightarrow> int \<Rightarrow> int \<Rightarrow> int \<Rightarrow> int \<Rightarrow> int option \<Rightarrow> error + datetime" where
  \<comment> \<open>the constructor \<open>datetime(y, m, d, H, M, S, us, tzinfo)\<close> with its range checks\<close>
  "datetime_new y m d H M S us tz =
     (if valid_fields y m d H M S us then Inr (mk_datetime y m d H M S us tz)
      else Inl ValueError)"

definition valid_datetime :: "datetime \<Rightarrow> bool" where
  "valid_datetime t =
     valid_fields (year t) (month t) (day t) (hour t) (minute t) (second t) (microsecond t)"

section \<open>\<open>datetime.strptime\<close>\<close>

text \<open>
  CPython turns the format into a regular expression: a directive becomes a named group,
  a run of blanks becomes \<open>\s+\<close>, any other character stands for itself, and the
  expression is compiled with \<open>IGNORECASE\<close>. \<open>re.match\<close> then takes the first match in
  backtracking order, and the call fails when the match does not end where the string
  ends. The model keeps that order: every matcher below returns its matches as a list,
  most preferred first. Only the directives that the program uses are covered.
\<close>

datatype item = Lit char | Ws | Dir char

fun pattern :: "string \<Rightarrow> item list" where
  "pattern [] = []"
| "pattern [c] = (if is_space c then [Ws] else [Lit c])"
| "pattern (c # d # cs) =
     (if c = CHR ''%'' then Dir d # pattern cs
      else if is_space c then (if is_space d then pattern (d # cs) else Ws # pattern (d # cs))
      else Lit c # pattern (d # cs))"

definition digits :: string where
  "digits = ''0123456789''"

definition directive_alts :: "char \<Rightarrow> string list list" where
  \<comment> \<open>each directive: its alternatives in order, an alternative being a sequence of
      character classes, a class being the string of its members\<close>
  "directive_alts c =
     (if c = CHR ''Y'' then [[digits, digits, digits, digits]]
      else if c = CHR ''m'' then [[''1'', ''012''], [''0'', ''123456789''], [''123456789'']]
      else if c = CHR ''d'' then
        [[''3'', ''01''], [''12'', digits], [''0'', ''123456789''], [''123456789''],
         ['' '', ''123456789'']]
      else if c = CHR ''H'' then [[''2'', ''0123''], [''01'', digits], [digits]]
      else if c = CHR ''M'' then [[''012345'', digits], [digits]]
      else if c = CHR ''S'' then [[''6'', ''01''], [''012345'', digits], [digits]]
      else if c = CHR ''f'' then
        [replicate 6 digits, replicate 5 digits, replicate 4 digits, replicate 3 digits,
         replicate 2 digits, replicate 1 digits]
      else [])"

fun match_classes :: "string list \<Rightarrow> string \<Rightarrow> (string \<times> string) option" where
  "match_classes [] s = Some ([], s)"
| "match_classes (cl # cls) [] = None"
| "match_classes (cl # cls) (x # xs) =
     (if x \<in> set cl
      then (case match_classes cls xs of None \<Rightarrow> None | Some (m, r) \<Rightarrow> Some (x # m, r))
      else None)"

definition to_lower :: "char \<Rightarrow> char" where
  "to_lower c =
     (let n = (of_char c :: nat) in if 65 \<le> n \<and> n \<le> 90 then char_of (n + 32) else c)"

definition match_item :: "item \<Rightarrow> string \<Rightarrow> (string \<times> string) list" where
  "match_item i s =
     (case i of
        Lit c \<Rightarrow> (case s of [] \<Rightarrow> [] | x # xs \<Rightarrow> if to_lower x = to_lower c then [([x], xs)] else [])
      | Ws \<Rightarrow> map (\<lambda>k. (take k s, drop k s)) (rev [1 ..< Suc (length (takeWhile is_space s))])
      | Dir c \<Rightarrow> List.map_filter (\<lambda>alt. match_classes alt s) (directive_alts c))"

fun match_items :: "item list \<Rightarrow> string \<Rightarrow> ((char \<times> string) list \<times> string) list" where
  "match_items [] s = [([], s)]"
| "match_items (i # is) s =
     concat (map (\<lambda>(m, r).
        map (\<lambda>(g, r'). ((case i of Dir c \<Rightarrow> (c, m) # g | _ \<Rightarrow> g), r')) (match_items is r))
      (match_item i s))"

definition group :: "(char \<times> string) list \<Rightarrow> char \<Rightarrow> int \<Rightarrow> int" where
  \<comment> \<open>the number in a group, or the default of a directive that the format does not have\<close>
  "group g c dflt = (case map_of g c of None \<Rightarrow> dflt | Some s \<Rightarrow> int_of_str s)"

definition fraction :: "(char \<times> string) list \<Rightarrow> int" where
  \<comment> \<open>\<open>%f\<close>: the digits padded with zeros on the right to six\<close>
  "fraction g =
     (case map_of g (CHR ''f'') of None \<Rightarrow> 0
      | Some s \<Rightarrow> int_of_str (s @ replicate (6 - length s) (CHR ''0'')))"

definition strptime :: "string \<Rightarrow> string \<Rightarrow> error + datetime" where
  "strptime data_string fmt =
     (case match_items (pattern fmt) data_string of
        [] \<Rightarrow> Inl ValueError
      | (g, rest) # _ \<Rightarrow>
          if rest \<noteq> [] then Inl ValueError
          else datetime_new (group g (CHR ''Y'') 1900) (group g (CHR ''m'') 1)
                 (group g (CHR ''d'') 1) (group g (CHR ''H'') 0) (group g (CHR ''M'') 0)
                 (group g (CHR ''S'') 0) (fraction g) None)"

section \<open>\<open>datetime.fromisoformat\<close>\<close>

text \<open>
  What \<open>fromisoformat\<close> accepts depends on the interpreter's version, so the parsers below
  take it as a parameter \<open>isoparse\<close>, and what is proved for every string is proved for every
  such function. The definition that follows is the grammar that every version accepts,
  the output of \<open>datetime.isoformat\<close>:
  \<open>YYYY-MM-DD[*HH[:MM[:SS[.fff[fff]]]][+HH:MM[:SS[.ffffff]]]]\<close>. It is used where a
  concrete string is evaluated.
\<close>

definition all_digits :: "string \<Rightarrow> bool" where
  "all_digits s = list_all is_digit s"

definition parse_isoformat_date :: "string \<Rightarrow> (int \<times> int \<times> int) option" where
  "parse_isoformat_date s =
     (if length s = 10 \<and> all_digits (take 4 s) \<and> s ! 4 = CHR ''-'' \<and>
         all_digits (take 2 (drop 5 s)) \<and> s ! 7 = CHR ''-'' \<and> all_digits (drop 8 s)
      then Some (int_of_str (take 4 s), int_of_str (take 2 (drop 5 s)), int_of_str (drop 8 s))
      else None)"

definition parse_hh_mm_ss_ff :: "string \<Rightarrow> (int \<times> int \<times> int \<times> int) option" where
  \<comment> \<open>\<open>HH[:MM[:SS[.fff[fff]]]]\<close>\<close>
  "parse_hh_mm_ss_ff s =
     (let n = length s;
          hh = take 2 s; mm = take 2 (drop 3 s); ss = take 2 (drop 6 s); ff = drop 9 s
      in if n \<notin> {2, 5, 8, 12, 15} then None
         else if \<not> all_digits hh then None
         else if n = 2 then Some (int_of_str hh, 0, 0, 0)
         else if s ! 2 \<noteq> CHR '':'' \<or> \<not> all_digits mm then None
         else if n = 5 then Some (int_of_str hh, int_of_str mm, 0, 0)
         else if s ! 5 \<noteq> CHR '':'' \<or> \<not> all_digits ss then None
         else if n = 8 then Some (int_of_str hh, int_of_str mm, int_of_str ss, 0)
         else if s ! 8 \<noteq> CHR ''.'' \<or> \<not> all_digits ff then None
         else if n = 12 then Some (int_of_str hh, int_of_str mm, int_of_str ss, int_of_str ff * 1000)
         else Some (int_of_str hh, int_of_str mm, int_of_str ss, int_of_str ff))"

definition is_sign :: "char \<Rightarrow> bool" where
  "is_sign c = (c = CHR ''+'' \<or> c = CHR ''-'')"

definition parse_tz :: "string \<Rightarrow> (int option) option" where
  \<comment> \<open>nothing, or a sign and \<open>HH:MM[:SS[.ffffff]]\<close>; the offset in microseconds, which has
      to be less than a day\<close>
  "parse_tz s =
     (case s of
        [] \<Rightarrow> Some None
      | sg # r \<Rightarrow>
          if length r \<notin> {5, 8, 15} then None
          else (case parse_hh_mm_ss_ff r of
                  None \<Rightarrow> None
                | Some (H, M, S, us) \<Rightarrow>
                    let off = (H * 3600 + M * 60 + S) * 1000000 + us
                    in if off < 86400000000
                       then Some (Some (if sg = CHR ''-'' then - off else off))
                       else None))"

definition fromisoformat :: "string \<Rightarrow> error + datetime" where
  "fromisoformat s =
     (case parse_isoformat_date (take 10 s) of
        None \<Rightarrow> Inl ValueError
      | Some (y, m, d) \<Rightarrow>
          if length s = 10 then datetime_new y m d 0 0 0 0 None
          else
            let tstr = drop 11 s;
                timestr = takeWhile (\<lambda>c. \<not> is_sign c) tstr;
                tzstr = dropWhile (\<lambda>c. \<not> is_sign c) tstr
            in (case (parse_hh_mm_ss_ff timestr, parse_tz tzstr) of
                  (Some (H, M, S, us), Some tz) \<Rightarrow> datetime_new y m d H M S us tz
                | _ \<Rightarrow> Inl ValueError))"

section \<open>Timestamp normalization (\<open>LogEntry._parse_timestamp\<close>)\<close>

fun try_formats :: "string \<Rightarrow> string list \<Rightarrow> error + datetime option" where
  \<comment> \<open>the loop over the formats: \<open>ValueError\<close> moves on to the next format, any other
      exception leaves the loop\<close>
  "try_formats s [] = Inr None"
| "try_formats s (fmt # fmts) =
     (case strptime s fmt of
        Inr d \<Rightarrow> Inr (Some d)
      | Inl ValueError \<Rightarrow> try_formats s fmts
      | Inl e \<Rightarrow> Inl e)"

definition warning :: "string \<Rightarrow> string" where
  "warning ts =
     ''Warning: Could not parse timestamp '' @ [CHR 0x27] @ ts @ [CHR 0x27] @
     '', using current time''"

subsection \<open>Desktop application\<close>

definition formats :: "string list" where
  "formats =
     [''%Y-%m-%d-%H-%M-%S'',
      ''%Y-%m-%d %H:%M:%S'',
      ''%Y/%m/%d %H:%M:%S'',
      ''%d/%m/%Y %H:%M:%S'',
      ''%m/%d/%Y %H:%M:%S'',
      ''%Y-%m-%d %H:%M:%S.%f'',
      ''%Y-%m-%dT%H:%M:%S'',
      ''%Y-%m-%dT%H:%M:%S.%fZ'',
      ''%d-%m-%Y %H:%M:%S'']"

definition at_end :: "string \<Rightarrow> bool" where
  \<comment> \<open>\<open>$\<close>: the end of the string, or just before a newline that ends it\<close>
  "at_end r = (r = [] \<or> r = [CHR 0x0A])"

definition two_digits_end :: "string \<Rightarrow> string option" where
  "two_digits_end r =
     (case r of
        a # b # r' \<Rightarrow> if is_digit a \<and> is_digit b \<and> at_end r' then Some r' else None
      | _ \<Rightarrow> None)"

definition tz_match :: "string \<Rightarrow> string option" where
  \<comment> \<open>a match of \<open>[+-]\d{2}:?\d{2}$|Z$\<close> at the start of the string: what follows it\<close>
  "tz_match s =
     (case s of
        [] \<Rightarrow> None
      | c # r \<Rightarrow>
          (case (if is_sign c then
                   (case r of
                      a # b # r' \<Rightarrow>
                        if is_digit a \<and> is_digit b then
                          (case (case r' of
                                   x # r'' \<Rightarrow> if x = CHR '':'' then two_digits_end r'' else None
                                 | [] \<Rightarrow> None) of
                             Some e \<Rightarrow> Some e
                           | None \<Rightarrow> two_digits_end r')
                        else None
                    | _ \<Rightarrow> None)
                 else None) of
             Some e \<Rightarrow> Some e
           | None \<Rightarrow> if c = CHR ''Z'' \<and> at_end r then Some r else None))"

lemma tz_match_shorter: "tz_match s = Some r \<Longrightarrow> length r < length s"
  by (auto simp: tz_match_def two_digits_end_def
           split: list.splits if_splits option.splits)

function tz_sub :: "string \<Rightarrow> string" where
  \<comment> \<open>\<open>re.sub(r'[+-]\d{2}:?\d{2}$|Z$', '', s)\<close>: every match, found from left to right, is
      removed\<close>
  "tz_sub [] = []"
| "tz_sub (c # cs) =
     (case tz_match (c # cs) of Some r \<Rightarrow> tz_sub r | None \<Rightarrow> c # tz_sub cs)"
  by pat_completeness auto
termination
  by (relation "measure length") (auto dest: tz_match_shorter)

definition parse_timestamp ::
  "(string \<Rightarrow> error + datetime) \<Rightarrow> datetime \<Rightarrow> string \<Rightarrow> error + datetime \<times> string list" where
  \<comment> \<open>\<open>_parse_timestamp\<close> of the desktop application; \<open>now\<close> is what the clock reads. The
      result is the value returned and the lines printed.\<close>
  "parse_timestamp isoparse now ts =
     (case try_formats (strip ts) formats of
        Inl e \<Rightarrow> Inl e
      | Inr (Some d) \<Rightarrow> Inr (d, [])
      | Inr None \<Rightarrow>
          (case isoparse (replace_char (CHR ''T'') (CHR '' '') (tz_sub (strip ts))) of
             Inr d \<Rightarrow> Inr (d, [])
           | Inl _ \<Rightarrow> Inr (now, [warning ts])))"

subsection \<open>Web application\<close>

definition web_formats :: "string list" where
  "web_formats =
     [''%Y-%m-%d-%H-%M-%S'',
      ''%Y-%m-%d %H:%M:%S'',
      ''%Y-%m-%dT%H:%M'',
      ''%Y-%m-%dT%H:%M:%S'',
      ''%Y/%m/%d %H:%M:%S'',
      ''%d/%m/%Y %H:%M:%S'']"

definition web_parse_timestamp ::
  "(string \<Rightarrow> error + datetime) \<Rightarrow> datetime \<Rightarrow> string \<Rightarrow> error + datetime \<times> string list" where
  \<comment> \<open>\<open>_parse_timestamp\<close> of the web application\<close>
  "web_parse_timestamp isoparse now ts =
     (case try_formats (strip ts) web_formats of
        Inl e \<Rightarrow> Inl e
      | Inr (Some d) \<Rightarrow> Inr (d, [])
      | Inr None \<Rightarrow>
          (case isoparse (replace_char (CHR ''T'') (CHR '' '') ts) of
             Inr d \<Rightarrow> Inr (d, [])
           | Inl _ \<Rightarrow> Inr (now, [warning ts])))"

section \<open>Comparing and sorting\<close>

text \<open>
  Two naive values are compared field by field. Two aware values are compared as
  instants, after their offsets are subtracted. A naive and an aware value cannot be
  ordered: \<open><\<close> raises \<open>TypeError\<close>.
\<close>

definition naive_key :: "datetime \<Rightarrow> int \<times> int \<times> int \<times> int \<times> int \<times> int \<times> int" where
  "naive_key t = (year t, month t, day t, hour t, minute t, second t, microsecond t)"

definition days_before_year :: "int \<Rightarrow> int" where
  "days_before_year y = (y - 1) * 365 + (y - 1) div 4 - (y - 1) div 100 + (y - 1) div 400"

definition days_before_month :: "int \<Rightarrow> int \<Rightarrow> int" where
  "days_before_month y m = sum_list (map (days_in_month y) [1 .. m - 1])"

definition ymd2ord :: "int \<Rightarrow> int \<Rightarrow> int \<Rightarrow> int" where
  "ymd2ord y m d = days_before_year y + days_before_month y m + d"

definition utc_micros :: "datetime \<Rightarrow> int \<Rightarrow> int" where
  "utc_micros t off =
     (((ymd2ord (year t) (month t) (day t) * 24 + hour t) * 60 + minute t) * 60 + second t)
       * 1000000 + microsecond t - off"

definition dt_lt :: "datetime \<Rightarrow> datetime \<Rightarrow> error + bool" where
  "dt_lt a b =
     (case (tzinfo a, tzinfo b) of
        (None, None) \<Rightarrow> Inr (naive_key a < naive_key b)
      | (Some oa, Some ob) \<Rightarrow> Inr (utc_micros a oa < utc_micros b ob)
      | _ \<Rightarrow> Inl TypeError)"

text \<open>
  \<open>list.sort\<close> and \<open>sorted\<close> are stable, compare with \<open><\<close> only, and pass on the
  exception of a comparison. They are modelled by the insertion sort that has these
  properties. With \<open>reverse=True\<close> the list is reversed before and after the sort, so
  that equal elements keep their order.
\<close>

fun insort_lt :: "('a \<Rightarrow> 'a \<Rightarrow> error + bool) \<Rightarrow> 'a \<Rightarrow> 'a list \<Rightarrow> error + 'a list" where
  "insort_lt lt x [] = Inr [x]"
| "insort_lt lt x (y # ys) =
     (case lt y x of
        Inl e \<Rightarrow> Inl e
      | Inr True \<Rightarrow> (case insort_lt lt x ys of Inl e \<Rightarrow> Inl e | Inr zs \<Rightarrow> Inr (y # zs))
      | Inr False \<Rightarrow> Inr (x # y # ys))"

fun py_sort :: "('a \<Rightarrow> 'a \<Rightarrow> error + bool) \<Rightarrow> 'a list \<Rightarrow> error + 'a list" where
  "py_sort lt [] = Inr []"
| "py_sort lt (x # xs) =
     (case py_sort lt xs of Inl e \<Rightarrow> Inl e | Inr ys \<Rightarrow> insort_lt lt x ys)"

definition py_sort_reverse :: "('a \<Rightarrow> 'a \<Rightarrow> error + bool) \<Rightarrow> 'a list \<Rightarrow> error + 'a list" where
  "py_sort_reverse lt xs =
     (case py_sort lt (rev xs) of Inl e \<Rightarrow> Inl e | Inr ys \<Rightarrow> Inr (rev ys))"

section \<open>Log entries\<close>

record LogEntry =
  timestamp :: string
  description :: string
  severity :: string
  parsed_time :: datetime

definition LogEntry_init ::
  "(string \<Rightarrow> error + datetime) \<Rightarrow> datetime \<Rightarrow> string \<Rightarrow> string \<Rightarrow> string \<Rightarrow> error + LogEntry" where
  \<comment> \<open>\<open>LogEntry.__init__\<close> of the desktop application\<close>
  "LogEntry_init isoparse now ts desc sev =
     (case parse_timestamp isoparse now ts of
        Inl e \<Rightarrow> Inl e
      | Inr (t, out) \<Rightarrow>
          Inr \<lparr>timestamp = ts, description = desc, severity = sev, parsed_time = t\<rparr>)"

definition entry_lt :: "'a LogEntry_scheme \<Rightarrow> 'a LogEntry_scheme \<Rightarrow> error + bool" where
  \<comment> \<open>\<open>LogEntry.__lt__\<close>, and the order of the key \<open>lambda x: x.parsed_time\<close>\<close>
  "entry_lt a b = dt_lt (parsed_time a) (parsed_time b)"

section \<open>The investigation folder and its files\<close>

text \<open>
  A file is named by its folder under the logs directory and its name; the disk is a map
  from such paths to file contents. Writing and deleting always succeed in the model.
\<close>

type_synonym path = "string \<times> string"

type_synonym disk = "path \<rightharpoonup> string"

definition safe_name :: "string \<Rightarrow> string" where
  \<comment> \<open>\<open>re.sub(r'[<>:"/\\|?*]', '_', name)\<close>\<close>
  "safe_name name =
     map (\<lambda>c. if c \<in> set (''<>:/|?*'' @ [CHR 0x22, CHR 0x5C]) then CHR ''_'' else c) name"

definition get_investigation_csv_path :: "string \<Rightarrow> path" where
  "get_investigation_csv_path name = (safe_name name, ''investigation_logs.csv'')"

definition digit_char :: "int \<Rightarrow> char" where
  "digit_char d = char_of (48 + d)"

definition zpad :: "nat \<Rightarrow> int \<Rightarrow> string" where
  \<comment> \<open>the last \<open>w\<close> decimal digits of \<open>n\<close>: the zero-padded numeral that \<open>strftime\<close> writes for
      a field with \<open>0 \<le> n < 10 ^ w\<close>\<close>
  "zpad w n = map (\<lambda>k. digit_char (n div 10 ^ k mod 10)) (rev [0 ..< w])"

definition strftime_stamp :: "datetime \<Rightarrow> string" where
  \<comment> \<open>\<open>strftime('%Y%m%d_%H%M%S')\<close>\<close>
  "strftime_stamp t =
     zpad 4 (year t) @ zpad 2 (month t) @ zpad 2 (day t) @ ''_'' @
     zpad 2 (hour t) @ zpad 2 (minute t) @ zpad 2 (second t)"

definition strftime_text :: "datetime \<Rightarrow> string" where
  \<comment> \<open>\<open>strftime('%Y-%m-%d %H:%M:%S')\<close>\<close>
  "strftime_text t =
     zpad 4 (year t) @ ''-'' @ zpad 2 (month t) @ ''-'' @ zpad 2 (day t) @ '' '' @
     zpad 2 (hour t) @ '':'' @ zpad 2 (minute t) @ '':'' @ zpad 2 (second t)"

definition join_lines :: "string list \<Rightarrow> string" where
  \<comment> \<open>\<open>'\n'.join(lines)\<close>\<close>
  "join_lines ls = (case ls of [] \<Rightarrow> [] | l # r \<Rightarrow> l @ concat (map (\<lambda>x. CHR 0x0A # x) r))"

definition report_content :: "string \<Rightarrow> string \<Rightarrow> datetime \<Rightarrow> string" where
  "report_content name analysis_text t =
     join_lines
       [replicate 80 (CHR ''=''),
        ''AI Security Analysis: '' @ name,
        replicate 80 (CHR ''=''),
        ''Generated: '' @ strftime_text t,
        replicate 80 (CHR ''=''),
        [],
        analysis_text,
        [],
        replicate 80 (CHR ''=''),
        ''End of AI Analysis'',
        replicate 80 (CHR ''='')]"

definition report_path :: "string \<Rightarrow> datetime \<Rightarrow> path" where
  "report_path name t = (safe_name name, ''ai_analysis_'' @ strftime_stamp t @ ''.txt'')"

definition save_ai_analysis_to_file ::
  "disk \<Rightarrow> string \<Rightarrow> string \<Rightarrow> datetime \<Rightarrow> datetime \<Rightarrow> disk \<times> path option" where
  \<comment> \<open>the same in both applications; the clock is read twice, for the file name (\<open>t1\<close>)
      and for the banner (\<open>t2\<close>)\<close>
  "save_ai_analysis_to_file d name analysis_text t1 t2 =
     (if analysis_text = [] then (d, None)
      else (d(report_path name t1 \<mapsto> report_content name analysis_text t2),
            Some (report_path name t1)))"

section \<open>The CSV snapshot\<close>

definition double_quotes :: "string \<Rightarrow> string" where
  \<comment> \<open>every quote character written twice\<close>
  "double_quotes s = concat (map (\<lambda>c. if c = CHR 0x22 then [c, c] else [c]) s)"

definition needs_quoting :: "string \<Rightarrow> bool" where
  \<comment> \<open>\<open>csv.QUOTE_MINIMAL\<close>: the field has the delimiter, the quote character or a
      character of the line terminator\<close>
  "needs_quoting s = list_ex (\<lambda>c. c \<in> set [CHR '','', CHR 0x22, CHR 0x0D, CHR 0x0A]) s"

definition csv_field :: "string \<Rightarrow> string" where
  "csv_field s = (if needs_quoting s then [CHR 0x22] @ double_quotes s @ [CHR 0x22] else s)"

definition writerow :: "string \<Rightarrow> string \<Rightarrow> string \<Rightarrow> string" where
  \<comment> \<open>\<open>csv.writer(...).writerow([a, b, c])\<close> in the default dialect\<close>
  "writerow a b c = csv_field a @ '','' @ csv_field b @ '','' @ csv_field c @ [CHR 0x0D, CHR 0x0A]"

definition csv_text :: "'a LogEntry_scheme list \<Rightarrow> string" where
  \<comment> \<open>what the desktop application writes\<close>
  "csv_text es =
     writerow ''Timestamp'' ''Severity'' ''Description'' @
     concat (map (\<lambda>e. writerow (timestamp e) (severity e) (description e)) es)"

definition web_row :: "'a LogEntry_scheme \<Rightarrow> string" where
  \<comment> \<open>\<open>f'"{entry.timestamp}","{entry.severity}","{description}"\n'\<close>\<close>
  "web_row e =
     [CHR 0x22] @ timestamp e @ [CHR 0x22] @ '','' @ [CHR 0x22] @ severity e @ [CHR 0x22] @
     '','' @ [CHR 0x22] @ double_quotes (description e) @ [CHR 0x22] @ [CHR 0x0A]"

definition web_csv_text :: "'a LogEntry_scheme list \<Rightarrow> string" where
  "web_csv_text es = ''Timestamp,Severity,Description'' @ [CHR 0x0A] @ concat (map web_row es)"

section \<open>Desktop application (\<open>DFIRLogSorter\<close>)\<close>

text \<open>
  The state is the entry list, the two sort flags, the investigation name and the disk.
  The widgets are not modelled: what the user typed or selected is an argument of the
  operation, and a message box is the message returned.
\<close>

record DFIRLogSorter =
  log_entries :: "LogEntry list"
  is_sorted :: bool
  current_sort_direction :: "string option"
  investigation_name :: string
  files :: disk

definition auto_save_logs_to_csv :: "DFIRLogSorter \<Rightarrow> DFIRLogSorter" where
  "auto_save_logs_to_csv st =
     (let csv_path = get_investigation_csv_path (investigation_name st)
      in if log_entries st = [] then st\<lparr>files := (files st)(csv_path := None)\<rparr>
         else (case py_sort entry_lt (log_entries st) of
                 Inl e \<Rightarrow> st
               | Inr sorted_entries \<Rightarrow>
                   st\<lparr>files := (files st)(csv_path \<mapsto> csv_text sorted_entries)\<rparr>))"

definition add_log_entry ::
  "(string \<Rightarrow> error + datetime) \<Rightarrow> datetime \<Rightarrow> DFIRLogSorter \<Rightarrow> string \<Rightarrow> string \<Rightarrow> string
     \<Rightarrow> string option \<times> DFIRLogSorter" where
  \<comment> \<open>the arguments after the state: the timestamp field, the description field and the
      severity chosen; the result: the error box shown, if any, and the state\<close>
  "add_log_entry isoparse now st timestamp_field description_field sev =
     (let ts = strip timestamp_field; desc = strip description_field
      in if ts = [] then (Some ''Please enter a timestamp'', st)
         else if desc = [] then (Some ''Please enter a description'', st)
         else (case LogEntry_init isoparse now ts desc sev of
                 Inl e \<Rightarrow> (Some ''Failed to add log entry'', st)
               | Inr log_entry \<Rightarrow>
                   (None,
                    auto_save_logs_to_csv
                      (st\<lparr>log_entries := log_entries st @ [log_entry],
                          is_sorted := False,
                          current_sort_direction := None\<rparr>))))"

datatype sort_outcome = Sorted | NothingToSort | SortFailed error

definition completed :: "sort_outcome \<Rightarrow> bool" where
  \<comment> \<open>the sort did not raise\<close>
  "completed outcome = (case outcome of SortFailed e \<Rightarrow> False | _ \<Rightarrow> True)"

definition sort_ascending ::
  "(bool \<Rightarrow> LogEntry list \<Rightarrow> LogEntry list) \<Rightarrow> DFIRLogSorter
     \<Rightarrow> sort_outcome \<times> DFIRLogSorter" where
  \<comment> \<open>When \<open>list.sort\<close> raises, the handler shows an error box and nothing else is done:
      the flags and the files stay, and the entries are in the order in which the
      interrupted sort left them. Python does not say which order that is; it is the
      parameter \<open>interrupted\<close>, whose first argument tells whether the sort was a reverse
      one.\<close>
  "sort_ascending interrupted st =
     (if log_entries st = [] then (NothingToSort, st)
      else (case py_sort entry_lt (log_entries st) of
              Inl e \<Rightarrow> (SortFailed e, st\<lparr>log_entries := interrupted False (log_entries st)\<rparr>)
            | Inr es \<Rightarrow>
                (Sorted,
                 auto_save_logs_to_csv
                   (st\<lparr>log_entries := es, is_sorted := True,
                       current_sort_direction := Some ''asc''\<rparr>))))"

definition sort_descending ::
  "(bool \<Rightarrow> LogEntry list \<Rightarrow> LogEntry list) \<Rightarrow> DFIRLogSorter
     \<Rightarrow> sort_outcome \<times> DFIRLogSorter" where
  "sort_descending interrupted st =
     (if log_entries st = [] then (NothingToSort, st)
      else (case py_sort_reverse entry_lt (log_entries st) of
              Inl e \<Rightarrow> (SortFailed e, st\<lparr>log_entries := interrupted True (log_entries st)\<rparr>)
            | Inr es \<Rightarrow>
                (Sorted,
                 auto_save_logs_to_csv
                   (st\<lparr>log_entries := es, is_sorted := True,
                       current_sort_direction := Some ''desc''\<rparr>))))"

text \<open>
  A value read back from a row of the table is a string, or something else that is equal
  to no string.
\<close>

datatype tkvalue = TkStr string | TkOther

fun remove_first :: "('a \<Rightarrow> bool) \<Rightarrow> 'a list \<Rightarrow> 'a list" where
  \<comment> \<open>the loop that deletes the first entry that matches, and stops\<close>
  "remove_first P [] = []"
| "remove_first P (x # xs) = (if P x then xs else x # remove_first P xs)"

definition delete_selected_entry ::
  "DFIRLogSorter \<Rightarrow> (tkvalue \<times> tkvalue \<times> tkvalue) option \<Rightarrow> bool
     \<Rightarrow> string option \<times> DFIRLogSorter" where
  \<comment> \<open>the arguments after the state: the values of the selected row, if a row is
      selected, and the answer to the confirmation\<close>
  "delete_selected_entry st selection confirmed =
     (case selection of
        None \<Rightarrow> (Some ''Please select an entry to delete'', st)
      | Some (v0, v1, v2) \<Rightarrow>
          if confirmed then
            (None,
             auto_save_logs_to_csv
               (st\<lparr>log_entries :=
                     remove_first
                       (\<lambda>entry. TkStr (timestamp entry) = v0 \<and> TkStr (description entry) = v2)
                       (log_entries st)\<rparr>))
          else (None, st))"

section \<open>Web application\<close>

text \<open>
  The session keeps each entry as a dictionary; every request builds the entry objects
  again from it, and so parses the timestamps again. A request reads the clock (\<open>now\<close>)
  and may draw a fresh identifier (\<open>uuid\<close>); both are arguments. A handler returns the
  HTTP status and the new state.
\<close>

record WebLogEntry = LogEntry +
  entry_id :: string
  created_at :: datetime

record entry_data =
  data_id :: string
  data_timestamp :: string
  data_description :: string
  data_severity :: string

record web_state =
  session_log_entries :: "entry_data list"
  session_investigation_name :: "string option"
  web_files :: disk

definition WebLogEntry_init ::
  "(string \<Rightarrow> error + datetime) \<Rightarrow> datetime \<Rightarrow> string \<Rightarrow> string \<Rightarrow> string \<Rightarrow> string
     \<Rightarrow> string option \<Rightarrow> error + WebLogEntry" where
  \<comment> \<open>\<open>LogEntry.__init__\<close> of the web application\<close>
  "WebLogEntry_init isoparse now uuid ts desc sev given_id =
     (case web_parse_timestamp isoparse now ts of
        Inl e \<Rightarrow> Inl e
      | Inr (t, out) \<Rightarrow>
          Inr \<lparr>timestamp = ts, description = desc, severity = sev, parsed_time = t,
               entry_id = (case given_id of None \<Rightarrow> uuid
                           | Some i \<Rightarrow> if i = [] then uuid else i),
               created_at = now\<rparr>)"

definition to_dict :: "WebLogEntry \<Rightarrow> entry_data" where
  \<comment> \<open>the keys of \<open>to_dict\<close> that are read again\<close>
  "to_dict e =
     \<lparr>data_id = entry_id e, data_timestamp = timestamp e,
      data_description = description e, data_severity = severity e\<rparr>"

fun get_session_logs ::
  "(string \<Rightarrow> error + datetime) \<Rightarrow> datetime \<Rightarrow> string \<Rightarrow> entry_data list
     \<Rightarrow> error + WebLogEntry list" where
  "get_session_logs isoparse now uuid [] = Inr []"
| "get_session_logs isoparse now uuid (d # ds) =
     (case WebLogEntry_init isoparse now uuid (data_timestamp d) (data_description d)
             (data_severity d) (Some (data_id d)) of
        Inl e \<Rightarrow> Inl e
      | Inr entry \<Rightarrow>
          (case get_session_logs isoparse now uuid ds of
             Inl e \<Rightarrow> Inl e
           | Inr entries \<Rightarrow> Inr (entry # entries)))"

definition save_logs_to_file ::
  "disk \<Rightarrow> string \<Rightarrow> 'a LogEntry_scheme list \<Rightarrow> error + disk \<times> path option" where
  "save_logs_to_file d name entries =
     (if entries = [] then Inr (d, None)
      else (case py_sort entry_lt entries of
              Inl e \<Rightarrow> Inl e
            | Inr sorted_entries \<Rightarrow>
                Inr (d(get_investigation_csv_path name \<mapsto> web_csv_text sorted_entries),
                     Some (get_investigation_csv_path name))))"

definition save_after_change :: "web_state \<Rightarrow> WebLogEntry list \<Rightarrow> web_state" where
  \<comment> \<open>what the handlers that add, update and delete do with the new list: store it in
      the session, then call \<open>save_logs_to_file\<close> and ignore an exception\<close>
  "save_after_change ws entries =
     (let name = (case session_investigation_name ws of None \<Rightarrow> ''Unknown'' | Some n \<Rightarrow> n);
          ws' = ws\<lparr>session_log_entries := map to_dict entries\<rparr>
      in (case save_logs_to_file (web_files ws) name entries of
            Inl e \<Rightarrow> ws'
          | Inr (d, p) \<Rightarrow> ws'\<lparr>web_files := d\<rparr>))"

definition add_entry ::
  "(string \<Rightarrow> error + datetime) \<Rightarrow> datetime \<Rightarrow> string \<Rightarrow> web_state \<Rightarrow> string \<Rightarrow> string
     \<Rightarrow> string \<Rightarrow> nat \<times> web_state" where
  "add_entry isoparse now uuid ws timestamp_field description_field sev =
     (let ts = strip timestamp_field; desc = strip description_field
      in if ts = [] then (400, ws)
         else if desc = [] then (400, ws)
         else if length desc < 5 then (400, ws)
         else (case WebLogEntry_init isoparse now uuid ts desc sev None of
                 Inl e \<Rightarrow> (500, ws)
               | Inr log_entry \<Rightarrow>
                   (case get_session_logs isoparse now uuid (session_log_entries ws) of
                      Inl e \<Rightarrow> (500, ws)
                    | Inr entries \<Rightarrow> (200, save_after_change ws (entries @ [log_entry])))))"

definition delete_entry ::
  "(string \<Rightarrow> error + datetime) \<Rightarrow> datetime \<Rightarrow> string \<Rightarrow> web_state \<Rightarrow> string
     \<Rightarrow> nat \<times> web_state" where
  "delete_entry isoparse now uuid ws eid =
     (case get_session_logs isoparse now uuid (session_log_entries ws) of
        Inl e \<Rightarrow> (500, ws)
      | Inr entries \<Rightarrow>
          let kept = filter (\<lambda>entry. entry_id entry \<noteq> eid) entries
          in if length kept = length entries then (404, ws)
             else (200, save_after_change ws kept))"

definition sort_entries ::
  "(string \<Rightarrow> error + datetime) \<Rightarrow> datetime \<Rightarrow> string \<Rightarrow> web_state \<Rightarrow> nat \<times> web_state" where
  "sort_entries isoparse now uuid ws =
     (case get_session_logs isoparse now uuid (session_log_entries ws) of
        Inl e \<Rightarrow> (500, ws)
      | Inr entries \<Rightarrow>
          if entries = [] then (400, ws)
          else (case py_sort entry_lt entries of
                  Inl e \<Rightarrow> (500, ws)
                | Inr sorted_entries \<Rightarrow>
                    (200, ws\<lparr>session_log_entries := map to_dict sorted_entries\<rparr>)))"

section \<open>Notions used in the statements\<close>

definition order_key :: "datetime \<Rightarrow> int \<times> int \<times> int \<times> int \<times> int \<times> int \<times> int" where
  \<comment> \<open>what \<open><\<close> compares: the fields of a naive value, the instant of an aware one\<close>
  "order_key t =
     (case tzinfo t of None \<Rightarrow> naive_key t | Some off \<Rightarrow> (utc_micros t off, 0, 0, 0, 0, 0, 0))"

definition time_key :: "'a LogEntry_scheme \<Rightarrow> int \<times> int \<times> int \<times> int \<times> int \<times> int \<times> int" where
  "time_key e = order_key (parsed_time e)"

definition comparable :: "'a LogEntry_scheme list \<Rightarrow> bool" where
  \<comment> \<open>the times are all naive or all aware, so that any two of them can be ordered\<close>
  "comparable es =
     (list_all (\<lambda>e. tzinfo (parsed_time e) = None) es \<or>
      list_all (\<lambda>e. tzinfo (parsed_time e) \<noteq> None) es)"

definition entry1 :: LogEntry where
  "entry1 = \<lparr>timestamp = ''2024-01-15 10:00:00'', description = ''first event'',
             severity = ''Low'', parsed_time = mk_datetime 2024 1 15 10 0 0 0 None\<rparr>"

definition entry2 :: LogEntry where
  "entry2 = \<lparr>timestamp = ''2024-01-14 09:00:00'', description = ''second event'',
             severity = ''Critical'', parsed_time = mk_datetime 2024 1 14 9 0 0 0 None\<rparr>"

definition entry3 :: LogEntry where
  "entry3 = \<lparr>timestamp = ''2024-01-15 10:00:00'', description = ''third event'',
             severity = ''Info'', parsed_time = mk_datetime 2024 1 15 10 0 0 0 None\<rparr>"

definition new_app :: "string \<Rightarrow> DFIRLogSorter" where
  \<comment> \<open>the application after an investigation is named: no entries, nothing on disk\<close>
  "new_app name =
     \<lparr>log_entries = [], is_sorted = False, current_sort_direction = None,
      investigation_name = name, files = Map.empty\<rparr>"

definition example_app :: DFIRLogSorter where
  \<comment> \<open>three entries in the order in which they were added\<close>
  "example_app = (new_app ''case'')\<lparr>log_entries := [entry1, entry2, entry3]\<rparr>"

definition keep_order :: "bool \<Rightarrow> LogEntry list \<Rightarrow> LogEntry list" where
  \<comment> \<open>for the examples: an interrupted sort that leaves the list as it was\<close>
  "keep_order reverse xs = xs"

definition asc_then_desc ::
  "(bool \<Rightarrow> LogEntry list \<Rightarrow> LogEntry list) \<Rightarrow> DFIRLogSorter
     \<Rightarrow> sort_outcome \<times> sort_outcome \<times> LogEntry list \<times> LogEntry list" where
  \<comment> \<open>sort ascending, then descending: the two outcomes, and the entry lists after the
      first and after the second step\<close>
  "asc_then_desc interrupted st =
     (case sort_ascending interrupted st of
        (o1, a) \<Rightarrow>
          (case sort_descending interrupted a of
             (o2, d) \<Rightarrow> (o1, o2, log_entries a, log_entries d)))"

definition clock :: datetime where
  \<comment> \<open>a reading of the clock for the examples\<close>
  "clock = mk_datetime 2025 6 1 12 0 0 0 None"

definition web_example :: web_state where
  \<comment> \<open>the same three entries in a session of the web application\<close>
  "web_example =
     \<lparr>session_log_entries =
        [\<lparr>data_id = ''id1'', data_timestamp = ''2024-01-15 10:00:00'',
          data_description = ''first event'', data_severity = ''Low''\<rparr>,
         \<lparr>data_id = ''id2'', data_timestamp = ''2024-01-14 09:00:00'',
          data_description = ''second event'', data_severity = ''Critical''\<rparr>,
         \<lparr>data_id = ''id3'', data_timestamp = ''2024-01-15 10:00:00'',
          data_description = ''third event'', data_severity = ''Info''\<rparr>],
      session_investigation_name = Some ''case'',
      web_files = Map.empty\<rparr>"

definition web_entries :: "WebLogEntry list" where
  \<comment> \<open>the entry objects that a request at time \<open>clock\<close> builds from \<open>web_example\<close>\<close>
  "web_entries =
     [LogEntry.extend entry1 \<lparr>entry_id = ''id1'', created_at = clock\<rparr>,
      LogEntry.extend entry2 \<lparr>entry_id = ''id2'', created_at = clock\<rparr>,
      LogEntry.extend entry3 \<lparr>entry_id = ''id3'', created_at = clock\<rparr>]"

definition entry_tz :: LogEntry where
  \<comment> \<open>an entry whose timestamp carries an offset, as the web application reads it\<close>
  "entry_tz = \<lparr>timestamp = ''2024-01-15 12:00:00+02:00'', description = ''offset event'',
               severity = ''High'',
               parsed_time = mk_datetime 2024 1 15 12 0 0 0 (Some 7200000000)\<rparr>"

definition web_new :: "string \<Rightarrow> web_state" where
  \<comment> \<open>the session after an investigation is started: no entries, nothing on disk\<close>
  "web_new name =
     \<lparr>session_log_entries = [], session_investigation_name = Some name,
      web_files = Map.empty\<rparr>"

definition web_add_then_delete ::
  "(string \<Rightarrow> error + datetime) \<Rightarrow> datetime \<Rightarrow> string \<Rightarrow> web_state \<Rightarrow> string \<Rightarrow> string
     \<Rightarrow> string \<Rightarrow> nat \<times> nat \<times> entry_data list \<times> string option" where
  \<comment> \<open>add an entry with the identifier \<open>uuid\<close>, then delete it: the two statuses, the
      entries of the session and the snapshot file afterwards\<close>
  "web_add_then_delete isoparse now uuid ws ts desc sev =
     (case add_entry isoparse now uuid ws ts desc sev of
        (c1, w1) \<Rightarrow>
          (case delete_entry isoparse now uuid w1 uuid of
             (c2, w2) \<Rightarrow>
               (c1, c2, session_log_entries w2,
                web_files w2
                  (get_investigation_csv_path
                     (case session_investigation_name ws of None \<Rightarrow> ''Unknown''
                      | Some n \<Rightarrow> n)))))"

definition add_then_delete ::
  "(string \<Rightarrow> error + datetime) \<Rightarrow> datetime \<Rightarrow> DFIRLogSorter \<Rightarrow> string \<Rightarrow> string \<Rightarrow> string
     \<Rightarrow> LogEntry list \<times> string option" where
  \<comment> \<open>the same in the desktop application, the row of the new entry being selected: the
      entries and the snapshot file afterwards\<close>
  "add_then_delete isoparse now st ts desc sev =
     (case add_log_entry isoparse now st ts desc sev of
        (m1, s1) \<Rightarrow>
          (case delete_selected_entry s1 (Some (TkStr (strip ts), TkStr sev, TkStr (strip desc))) True of
             (m2, s2) \<Rightarrow>
               (log_entries s2,
                files s2 (get_investigation_csv_path (investigation_name st)))))"

definition web_first :: web_state where
  \<comment> \<open>a new session of the web application after one entry is added\<close>
  "web_first =
     snd (add_entry fromisoformat clock ''id1'' (web_new ''case'')
            ''2024-01-15 10:00:00'' ''first event'' ''Low'')"

definition web_mixed :: web_state where
  \<comment> \<open>and after a second entry is added, whose timestamp carries an offset\<close>
  "web_mixed =
     snd (add_entry fromisoformat clock ''id2'' web_first
            ''2024-01-15 12:00:00+02:00'' ''offset event'' ''High'')"

definition desktop_first :: DFIRLogSorter where
  \<comment> \<open>the desktop application after the same first entry is added\<close>
  "desktop_first =
     snd (add_log_entry fromisoformat clock (new_app ''case'')
            ''2024-01-15 10:00:00'' ''first event'' ''Low'')"

definition desktop_offset :: DFIRLogSorter where
  \<comment> \<open>and after the same second entry is added\<close>
  "desktop_offset =
     snd (add_log_entry fromisoformat clock desktop_first
            ''2024-01-15 12:00:00+02:00'' ''offset event'' ''High'')"

definition desktop_mixed :: DFIRLogSorter where
  \<comment> \<open>the desktop application after the first entry and an entry whose timestamp carries
      two annotations\<close>
  "desktop_mixed =
     snd (add_log_entry fromisoformat clock desktop_first
            ''2024-01-15 10:00:00+05:00Z'' ''offset event'' ''High'')"

definition entry_tz_z :: LogEntry where
  \<comment> \<open>the second entry of \<open>desktop_mixed\<close>\<close>
  "entry_tz_z = \<lparr>timestamp = ''2024-01-15 10:00:00+05:00Z'', description = ''offset event'',
                 severity = ''High'',
                 parsed_time = mk_datetime 2024 1 15 10 0 0 0 (Some 18000000000)\<rparr>"

definition tz_annotation :: "string \<Rightarrow> bool" where
  \<comment> \<open>a timezone annotation: \<open>Z\<close>, \<open>+HH:MM\<close> or \<open>-HH:MM\<close>\<close>
  "tz_annotation off =
     (off = ''Z'' \<or>
      (case off of
         [sg, a, b, c, d, e] \<Rightarrow>
           is_sign sg \<and> is_digit a \<and> is_digit b \<and> c = CHR '':'' \<and> is_digit d \<and> is_digit e
       | _ \<Rightarrow> False))"

definition canonical_time ::
  "(string \<Rightarrow> error + datetime) \<Rightarrow> datetime \<Rightarrow> string \<Rightarrow> error + datetime" where
  \<comment> \<open>the time that the desktop parser returns\<close>
  "canonical_time isoparse now ts =
     (case parse_timestamp isoparse now ts of Inl e \<Rightarrow> Inl e | Inr (t, out) \<Rightarrow> Inr t)"

definition web_canonical_time ::
  "(string \<Rightarrow> error + datetime) \<Rightarrow> datetime \<Rightarrow> string \<Rightarrow> error + datetime" where
  \<comment> \<open>the time that the web parser returns\<close>
  "web_canonical_time isoparse now ts =
     (case web_parse_timestamp isoparse now ts of Inl e \<Rightarrow> Inl e | Inr (t, out) \<Rightarrow> Inr t)"

section \<open>Normalization never raises\<close>

lemma strptime_error: "strptime s f = Inl e \<Longrightarrow> e = ValueError"
  by (auto simp: strptime_def datetime_new_def split: list.splits if_splits prod.splits)
lemma try_formats_total: "\<exists>r. try_formats s fs = Inr r"
proof (induction fs)
  case Nil show ?case by simp
next
  case (Cons f fs)
  show ?case
  proof (cases "strptime s f")
    case (Inl e)
    then have "e = ValueError" by (rule strptime_error)
    with Inl Cons show ?thesis by simp
  next
    case (Inr d) then show ?thesis by simp
  qed
qed
lemma try_formats_first:
  "k < length fs \<Longrightarrow> strptime s (fs ! k) = Inr d \<Longrightarrow> \<forall>j<k. isl (strptime s (fs ! j))
   \<Longrightarrow> try_formats s fs = Inr (Some d)"
proof (induction fs arbitrary: k)
  case Nil then show ?case by simp
next
  case (Cons f fs)
  show ?case
  proof (cases k)
    case 0 with Cons.prems show ?thesis by simp
  next
    case (Suc k')
    from Cons.prems(3) Suc have "isl (strptime s f)" by auto
    then obtain e where "strptime s f = Inl e" by (cases "strptime s f") auto
    then have "strptime s f = Inl ValueError" using strptime_error by blast
    moreover have "try_formats s fs = Inr (Some d)"
      using Cons.IH[of k'] Cons.prems Suc by fastforce
    ultimately show ?thesis by simp
  qed
qed

text \<open>
  C1, as the code has it. Both parsers return for every string and never raise. When no
  format matches and the ISO parse fails as well, the value returned is the reading of
  the clock, and a warning is printed. The value returned is the bare instant: there is
  no flag that tells a caller about the fallback.
\<close>

theorem parse_timestamp_total:
  "(\<exists>t out. parse_timestamp isoparse now ts = Inr (t, out)) \<and>
   (\<exists>t out. web_parse_timestamp isoparse now ts = Inr (t, out)) \<and>
   (try_formats (strip ts) formats = Inr None \<and>
      isl (isoparse (replace_char (CHR ''T'') (CHR '' '') (tz_sub (strip ts))))
      \<longrightarrow> parse_timestamp isoparse now ts = Inr (now, [warning ts])) \<and>
   (try_formats (strip ts) web_formats = Inr None \<and>
      isl (isoparse (replace_char (CHR ''T'') (CHR '' '') ts))
      \<longrightarrow> web_parse_timestamp isoparse now ts = Inr (now, [warning ts]))"
proof -
  obtain r where r: "try_formats (strip ts) formats = Inr r"
    using try_formats_total by blast
  obtain r' where r': "try_formats (strip ts) web_formats = Inr r'"
    using try_formats_total by blast
  have a: "\<exists>t out. parse_timestamp isoparse now ts = Inr (t, out)"
    using r by (auto simp: parse_timestamp_def split: option.splits sum.splits)
  have b: "\<exists>t out. web_parse_timestamp isoparse now ts = Inr (t, out)"
    using r' by (auto simp: web_parse_timestamp_def split: option.splits sum.splits)
  have c: "try_formats (strip ts) formats = Inr None \<and>
      isl (isoparse (replace_char (CHR ''T'') (CHR '' '') (tz_sub (strip ts))))
      \<longrightarrow> parse_timestamp isoparse now ts = Inr (now, [warning ts])"
    by (auto simp: parse_timestamp_def split: sum.splits)
  have d: "try_formats (strip ts) web_formats = Inr None \<and>
      isl (isoparse (replace_char (CHR ''T'') (CHR '' '') ts))
      \<longrightarrow> web_parse_timestamp isoparse now ts = Inr (now, [warning ts])"
    by (auto simp: web_parse_timestamp_def split: sum.splits)
  from a b c d show ?thesis by blast
qed

theorem parse_timestamp_total_witness:
  "try_formats (strip ''banana'') formats = Inr None \<and>
   isl (fromisoformat (replace_char (CHR ''T'') (CHR '' '') (tz_sub (strip ''banana'')))) \<and>
   try_formats (strip ''banana'') web_formats = Inr None \<and>
   isl (fromisoformat (replace_char (CHR ''T'') (CHR '' '') ''banana'')) \<and>
   parse_timestamp fromisoformat (mk_datetime 2025 6 1 12 0 0 0 None) ''banana'' =
     Inr (mk_datetime 2025 6 1 12 0 0 0 None, [warning ''banana'']) \<and>
   web_parse_timestamp fromisoformat (mk_datetime 2025 6 1 12 0 0 0 None) ''banana'' =
     Inr (mk_datetime 2025 6 1 12 0 0 0 None, [warning ''banana''])"
proof -
  have h1: "try_formats (strip ''banana'') formats = Inr None" by code_simp
  have h2: "isl (fromisoformat (replace_char (CHR ''T'') (CHR '' '') (tz_sub (strip ''banana''))))"
    by code_simp
  have h3: "try_formats (strip ''banana'') web_formats = Inr None" by code_simp
  have h4: "isl (fromisoformat (replace_char (CHR ''T'') (CHR '' '') ''banana''))" by code_simp
  show ?thesis
    using parse_timestamp_total [of fromisoformat "mk_datetime 2025 6 1 12 0 0 0 None" "''banana''"]
      h1 h2 h3 h4 by blast
qed

text \<open>
  C1 as it is stated asks for a flag \<open>degraded = true\<close> next to the instant. At the string
  \<open>banana\<close> no format matches and the ISO parse fails, and the parser returns the same
  value as for a well-formed string that names the clock's reading; the entry built from
  it has no further field.
\<close>

theorem degraded_flag_counterexample:
  "try_formats (strip ''banana'') formats = Inr None \<and>
   fromisoformat (replace_char (CHR ''T'') (CHR '' '') (tz_sub (strip ''banana''))) = Inl ValueError \<and>
   parse_timestamp fromisoformat (mk_datetime 2025 6 1 12 0 0 0 None) ''banana'' =
     Inr (mk_datetime 2025 6 1 12 0 0 0 None, [warning ''banana'']) \<and>
   parse_timestamp fromisoformat (mk_datetime 2025 6 1 12 0 0 0 None) ''2025-06-01 12:00:00'' =
     Inr (mk_datetime 2025 6 1 12 0 0 0 None, []) \<and>
   LogEntry_init fromisoformat (mk_datetime 2025 6 1 12 0 0 0 None) ''banana'' ''x'' ''Info'' =
     Inr \<lparr>timestamp = ''banana'', description = ''x'', severity = ''Info'',
          parsed_time = mk_datetime 2025 6 1 12 0 0 0 None\<rparr>"
proof -
  have h1: "try_formats (strip ''banana'') formats = Inr None" by code_simp
  have h2: "fromisoformat (replace_char (CHR ''T'') (CHR '' '') (tz_sub (strip ''banana''))) = Inl ValueError"
    by code_simp
  have h3: "try_formats (strip ''2025-06-01 12:00:00'') formats = Inr (Some (mk_datetime 2025 6 1 12 0 0 0 None))"
    by code_simp
  show ?thesis using h1 h2 h3
    by (simp add: parse_timestamp_def LogEntry_init_def)
qed

section \<open>The first format that matches decides\<close>

text \<open>
  C2. The formats are tried in the order of the list, and the first one that accepts the
  whole trimmed string gives the result: when format \<open>k\<close> accepts and every earlier one
  rejects, the parser returns what format \<open>k\<close> read. For \<open>15/01/2024 14:30:25\<close> this is
  15 January 2024, 14:30:25, read as day/month/year; month/day/year rejects the string.
\<close>

theorem first_matching_format_wins:
  "(k < length formats \<and> strptime (strip ts) (formats ! k) = Inr d \<and>
      (\<forall>j<k. isl (strptime (strip ts) (formats ! j)))
      \<longrightarrow> parse_timestamp isoparse now ts = Inr (d, [])) \<and>
   (k < length web_formats \<and> strptime (strip ts) (web_formats ! k) = Inr d \<and>
      (\<forall>j<k. isl (strptime (strip ts) (web_formats ! j)))
      \<longrightarrow> web_parse_timestamp isoparse now ts = Inr (d, [])) \<and>
   parse_timestamp isoparse now ''15/01/2024 14:30:25'' =
     Inr (mk_datetime 2024 1 15 14 30 25 0 None, []) \<and>
   web_parse_timestamp isoparse now ''15/01/2024 14:30:25'' =
     Inr (mk_datetime 2024 1 15 14 30 25 0 None, []) \<and>
   strptime ''15/01/2024 14:30:25'' ''%m/%d/%Y %H:%M:%S'' = Inl ValueError"
proof -
  have a: "k < length formats \<and> strptime (strip ts) (formats ! k) = Inr d \<and>
      (\<forall>j<k. isl (strptime (strip ts) (formats ! j)))
      \<longrightarrow> parse_timestamp isoparse now ts = Inr (d, [])"
    using try_formats_first [of k formats "strip ts" d] by (auto simp: parse_timestamp_def)
  have b: "k < length web_formats \<and> strptime (strip ts) (web_formats ! k) = Inr d \<and>
      (\<forall>j<k. isl (strptime (strip ts) (web_formats ! j)))
      \<longrightarrow> web_parse_timestamp isoparse now ts = Inr (d, [])"
    using try_formats_first [of k web_formats "strip ts" d]
    by (auto simp: web_parse_timestamp_def)
  have c1: "try_formats (strip ''15/01/2024 14:30:25'') formats =
      Inr (Some (mk_datetime 2024 1 15 14 30 25 0 None))" by code_simp
  have c2: "try_formats (strip ''15/01/2024 14:30:25'') web_formats =
      Inr (Some (mk_datetime 2024 1 15 14 30 25 0 None))" by code_simp
  have c: "parse_timestamp isoparse now ''15/01/2024 14:30:25'' =
     Inr (mk_datetime 2024 1 15 14 30 25 0 None, [])"
    using c1 by (simp add: parse_timestamp_def)
  have d: "web_parse_timestamp isoparse now ''15/01/2024 14:30:25'' =
     Inr (mk_datetime 2024 1 15 14 30 25 0 None, [])"
    using c2 by (simp add: web_parse_timestamp_def)
  have e: "strptime ''15/01/2024 14:30:25'' ''%m/%d/%Y %H:%M:%S'' = Inl ValueError"
    by code_simp
  from a b c d e show ?thesis by blast
qed

theorem first_matching_format_wins_witness:
  "3 < length formats \<and>
   strptime (strip ''15/01/2024 14:30:25'') (formats ! 3) =
     Inr (mk_datetime 2024 1 15 14 30 25 0 None) \<and>
   isl (strptime (strip ''15/01/2024 14:30:25'') (formats ! 0)) \<and>
   isl (strptime (strip ''15/01/2024 14:30:25'') (formats ! 1)) \<and>
   isl (strptime (strip ''15/01/2024 14:30:25'') (formats ! 2)) \<and>
   5 < length web_formats \<and>
   strptime (strip ''15/01/2024 14:30:25'') (web_formats ! 5) =
     Inr (mk_datetime 2024 1 15 14 30 25 0 None) \<and>
   parse_timestamp fromisoformat (mk_datetime 2025 6 1 12 0 0 0 None) ''15/01/2024 14:30:25'' =
     Inr (mk_datetime 2024 1 15 14 30 25 0 None, [])"
proof -
  have h1: "3 < length formats" by (simp add: formats_def)
  have h2: "strptime (strip ''15/01/2024 14:30:25'') (formats ! 3) =
     Inr (mk_datetime 2024 1 15 14 30 25 0 None)" by code_simp
  have "isl (strptime (strip ''15/01/2024 14:30:25'') (formats ! 0))" by code_simp
  moreover have "isl (strptime (strip ''15/01/2024 14:30:25'') (formats ! Suc 0))" by code_simp
  moreover have "isl (strptime (strip ''15/01/2024 14:30:25'') (formats ! Suc (Suc 0)))" by code_simp
  ultimately have h3: "\<forall>j<3. isl (strptime (strip ''15/01/2024 14:30:25'') (formats ! j))"
    by (simp add: eval_nat_numeral less_Suc_eq)
  have w1: "5 < length web_formats" by (simp add: web_formats_def)
  have w2: "strptime (strip ''15/01/2024 14:30:25'') (web_formats ! 5) =
     Inr (mk_datetime 2024 1 15 14 30 25 0 None)" by code_simp
  have "isl (strptime (strip ''15/01/2024 14:30:25'') (web_formats ! 0))" by code_simp
  moreover have "isl (strptime (strip ''15/01/2024 14:30:25'') (web_formats ! Suc 0))" by code_simp
  moreover have "isl (strptime (strip ''15/01/2024 14:30:25'') (web_formats ! Suc (Suc 0)))" by code_simp
  moreover have "isl (strptime (strip ''15/01/2024 14:30:25'') (web_formats ! Suc (Suc (Suc 0))))" by code_simp
  moreover have "isl (strptime (strip ''15/01/2024 14:30:25'') (web_formats ! Suc (Suc (Suc (Suc 0)))))" by code_simp
  ultimately have w3: "\<forall>j<5. isl (strptime (strip ''15/01/2024 14:30:25'') (web_formats ! j))"
    by (simp add: eval_nat_numeral less_Suc_eq)
  show ?thesis
    using first_matching_format_wins [of 3 "''15/01/2024 14:30:25''"
        "mk_datetime 2024 1 15 14 30 25 0 None" fromisoformat "mk_datetime 2025 6 1 12 0 0 0 None"]
      h1 h2 h3 w1 w2 w3 by (simp add: eval_nat_numeral)
qed

section \<open>Sorting\<close>

text \<open>
  On a list whose times can be compared, the model of \<open>list.sort\<close> is the stable
  insertion sort of the library by the key that \<open><\<close> compares; on any other list it
  raises \<open>TypeError\<close>.
\<close>

lemma dt_lt_naive:
  "tzinfo a = None \<Longrightarrow> tzinfo b = None \<Longrightarrow> dt_lt a b = Inr (order_key a < order_key b)"
  by (simp add: dt_lt_def order_key_def)

lemma dt_lt_aware:
  "tzinfo a \<noteq> None \<Longrightarrow> tzinfo b \<noteq> None \<Longrightarrow> dt_lt a b = Inr (order_key a < order_key b)"
  by (auto simp: dt_lt_def order_key_def less_prod_def)

lemma entry_lt_comparable:
  "comparable es \<Longrightarrow> a \<in> set es \<Longrightarrow> b \<in> set es \<Longrightarrow> entry_lt a b = Inr (time_key a < time_key b)"
  unfolding comparable_def entry_lt_def time_key_def list_all_iff
  using dt_lt_naive dt_lt_aware by blast

lemma insort_lt_key:
  "\<forall>y \<in> set ys. lt y x = Inr (f y < f x) \<Longrightarrow> insort_lt lt x ys = Inr (insort_key f x ys)"
  by (induction ys) (auto split: bool.splits simp: not_le)

lemma py_sort_key:
  "\<forall>a \<in> set xs. \<forall>b \<in> set xs. lt a b = Inr (f a < f b) \<Longrightarrow> py_sort lt xs = Inr (sort_key f xs)"
proof (induction xs)
  case Nil show ?case by simp
next
  case (Cons x xs)
  then have ih: "py_sort lt xs = Inr (sort_key f xs)" by simp
  have "\<forall>y \<in> set (sort_key f xs). lt y x = Inr (f y < f x)" using Cons.prems by simp
  then show ?case using ih by (simp add: insort_lt_key)
qed

lemma py_sort_comparable:
  "comparable es \<Longrightarrow> py_sort entry_lt es = Inr (sort_key time_key es)"
  by (rule py_sort_key) (simp add: entry_lt_comparable)

lemma comparable_rev: "comparable (rev es) = comparable es"
  by (simp add: comparable_def list_all_iff)

lemma py_sort_reverse_comparable:
  "comparable es \<Longrightarrow> py_sort_reverse entry_lt es = Inr (rev (sort_key time_key (rev es)))"
  by (simp add: py_sort_reverse_def py_sort_comparable comparable_rev)

lemma same_time_same_key: "parsed_time e = t \<Longrightarrow> time_key e = order_key t"
  by (simp add: time_key_def)

lemma filter_time_sort:
  "filter (\<lambda>e. parsed_time e = t) (sort_key time_key es) = filter (\<lambda>e. parsed_time e = t) es"
proof -
  have eq: "\<And>xs :: 'a LogEntry_scheme list. filter (\<lambda>e. parsed_time e = t) xs =
      filter (\<lambda>e. parsed_time e = t) (filter (\<lambda>e. time_key e = order_key t) xs)"
    by (auto simp: same_time_same_key intro: filter_cong)
  have "filter (\<lambda>e. parsed_time e = t) (sort_key time_key es) =
      filter (\<lambda>e. parsed_time e = t) (filter (\<lambda>e. time_key e = order_key t) (sort_key time_key es))"
    by (rule eq)
  also have "\<dots> = filter (\<lambda>e. parsed_time e = t) (filter (\<lambda>e. time_key e = order_key t) es)"
    by (simp only: sort_key_stable)
  also have "\<dots> = filter (\<lambda>e. parsed_time e = t) es"
    by (rule eq [symmetric])
  finally show ?thesis .
qed

lemma filter_time_sort_reverse:
  "filter (\<lambda>e. parsed_time e = t) (rev (sort_key time_key (rev es))) = filter (\<lambda>e. parsed_time e = t) es"
  by (simp add: rev_filter [symmetric] filter_time_sort)

lemma log_entries_auto_save [simp]: "log_entries (auto_save_logs_to_csv st) = log_entries st"
  by (simp add: auto_save_logs_to_csv_def Let_def split: sum.splits)

lemma py_sort_mixed:
  "\<not> comparable es \<Longrightarrow> py_sort entry_lt es = Inl TypeError"
proof (induction es)
  case Nil then show ?case by (simp add: comparable_def)
next
  case (Cons x xs)
  show ?case
  proof (cases "comparable xs")
    case False
    with Cons.IH show ?thesis by simp
  next
    case True
    then have s: "py_sort entry_lt xs = Inr (sort_key time_key xs)" by (rule py_sort_comparable)
    from Cons.prems True have ne: "xs \<noteq> []" by (auto simp: comparable_def)
    then obtain y ys where ys: "sort_key time_key xs = y # ys"
      by (cases "sort_key time_key xs") (auto dest: arg_cong[where f = length])
    then have "y \<in> set xs" by (metis list.set_intros(1) set_sort)
    with Cons.prems True have "(tzinfo (parsed_time y) = None) \<noteq> (tzinfo (parsed_time x) = None)"
      by (auto simp: comparable_def list_all_iff)
    then have "entry_lt y x = Inl TypeError"
      by (auto simp: entry_lt_def dt_lt_def split: option.splits)
    with s ys show ?thesis by simp
  qed
qed

lemma sort_ascending_comparable:
  "comparable (log_entries st) \<Longrightarrow> log_entries st \<noteq> [] \<Longrightarrow>
   sort_ascending interrupted st = (Sorted, auto_save_logs_to_csv
      (st\<lparr>log_entries := sort_key time_key (log_entries st), is_sorted := True,
          current_sort_direction := Some ''asc''\<rparr>))"
  by (simp add: sort_ascending_def py_sort_comparable)

lemma sort_descending_comparable:
  "comparable (log_entries st) \<Longrightarrow> log_entries st \<noteq> [] \<Longrightarrow>
   sort_descending interrupted st = (Sorted, auto_save_logs_to_csv
      (st\<lparr>log_entries := rev (sort_key time_key (rev (log_entries st))), is_sorted := True,
          current_sort_direction := Some ''desc''\<rparr>))"
  by (simp add: sort_descending_def py_sort_reverse_comparable)

lemma comparable_mset: "mset xs = mset ys \<Longrightarrow> comparable xs = comparable ys"
  by (auto simp: comparable_def list_all_iff dest: mset_eq_setD)

lemma comparable_sort [simp]: "comparable (sort_key f xs) = comparable xs"
  by (rule comparable_mset) simp

lemma sort_key_eq_Nil [simp]: "(sort_key f xs = []) = (xs = [])"
  by (metis length_0_conv length_sort)

lemma py_sort_Inr:
  "py_sort entry_lt es = Inr ys \<Longrightarrow> comparable es \<and> ys = sort_key time_key es"
  using py_sort_mixed [of es] py_sort_comparable [of es] by (cases "comparable es") auto

lemma sort_ascending_total:
  assumes "comparable (log_entries st)"
  shows "\<exists>oc a. sort_ascending interrupted st = (oc, a) \<and> completed oc \<and>
           log_entries a = sort_key time_key (log_entries st)"
proof (cases "log_entries st = []")
  case True
  then show ?thesis by (simp add: sort_ascending_def completed_def)
next
  case False
  with assms show ?thesis by (simp add: sort_ascending_comparable completed_def)
qed

lemma sort_descending_total:
  assumes "comparable (log_entries st)"
  shows "\<exists>oc d. sort_descending interrupted st = (oc, d) \<and> completed oc \<and>
           log_entries d = rev (sort_key time_key (rev (log_entries st)))"
proof (cases "log_entries st = []")
  case True
  then show ?thesis by (simp add: sort_descending_def completed_def)
next
  case False
  with assms show ?thesis by (simp add: sort_descending_comparable completed_def)
qed

lemma sort_ascending_completed:
  assumes "sort_ascending interrupted st = (oc, a)" "completed oc"
  shows "comparable (log_entries st) \<and> log_entries a = sort_key time_key (log_entries st)"
proof (cases "comparable (log_entries st)")
  case True
  with sort_ascending_total [OF True, of interrupted] assms(1) show ?thesis by auto
next
  case False
  then have "log_entries st \<noteq> []" by (auto simp: comparable_def)
  with False assms show ?thesis
    by (auto simp: sort_ascending_def py_sort_mixed completed_def)
qed

text \<open>
  Whenever the ascending sort completes, in either application, the result is in
  ascending order and has the same entries, and the entries that \<open><\<close> does not tell apart
  are in the order they had before; so are, in particular, the entries with the same
  time. When the sort of the web application does not complete, the session is as it
  was.
\<close>

lemma sort_ascending_stable:
  assumes "sort_ascending interrupted st = (oc, st')" "completed oc"
  shows "sorted (map time_key (log_entries st')) \<and>
         mset (log_entries st') = mset (log_entries st) \<and>
         (\<forall>k. filter (\<lambda>e. time_key e = k) (log_entries st') =
              filter (\<lambda>e. time_key e = k) (log_entries st)) \<and>
         (\<forall>t. filter (\<lambda>e. parsed_time e = t) (log_entries st') =
              filter (\<lambda>e. parsed_time e = t) (log_entries st))"
  using sort_ascending_completed [OF assms]
  by (simp add: filter_time_sort sort_key_stable)

lemma sort_entries_stable:
  assumes "get_session_logs isoparse now uuid (session_log_entries ws) = Inr es"
    "sort_entries isoparse now uuid ws = (c, ws')"
  shows "(c \<noteq> 200 \<longrightarrow> ws' = ws) \<and>
         (c = 200 \<longrightarrow>
            (\<exists>es'. ws' = ws\<lparr>session_log_entries := map to_dict es'\<rparr> \<and>
               sorted (map time_key es') \<and> mset es' = mset es \<and>
               (\<forall>k. filter (\<lambda>e. time_key e = k) es' = filter (\<lambda>e. time_key e = k) es) \<and>
               (\<forall>t. filter (\<lambda>e. parsed_time e = t) es' = filter (\<lambda>e. parsed_time e = t) es)))"
proof (intro conjI impI)
  assume "c \<noteq> 200"
  with assms show "ws' = ws"
    by (auto simp: sort_entries_def split: sum.splits if_splits)
next
  assume "c = 200"
  with assms obtain ys where ys: "py_sort entry_lt es = Inr ys"
      "ws' = ws\<lparr>session_log_entries := map to_dict ys\<rparr>"
    by (auto simp: sort_entries_def split: sum.splits if_splits)
  from py_sort_Inr [OF ys(1)] have "ys = sort_key time_key es" by simp
  with ys(2) show "\<exists>es'. ws' = ws\<lparr>session_log_entries := map to_dict es'\<rparr> \<and>
               sorted (map time_key es') \<and> mset es' = mset es \<and>
               (\<forall>k. filter (\<lambda>e. time_key e = k) es' = filter (\<lambda>e. time_key e = k) es) \<and>
               (\<forall>t. filter (\<lambda>e. parsed_time e = t) es' = filter (\<lambda>e. parsed_time e = t) es)"
    using filter_time_sort [of _ es] sort_key_stable [of time_key _ es]
    by (intro exI [of _ "sort_key time_key es"]) simp
qed

lemma sort_ascending_example:
  assumes "log_entries st = [e1, e2, e3]"
    "parsed_time e1 = mk_datetime 2024 1 15 10 0 0 0 None"
    "parsed_time e2 = mk_datetime 2024 1 14 9 0 0 0 None"
    "parsed_time e3 = mk_datetime 2024 1 15 10 0 0 0 None"
  shows "\<exists>s. sort_ascending interrupted st = (Sorted, s) \<and> log_entries s = [e2, e1, e3]"
proof -
  from assms have cmp: "comparable (log_entries st)"
    by (simp add: comparable_def mk_datetime_def)
  have "sort_key time_key [e1, e2, e3] = [e2, e1, e3]"
    using assms by (simp add: time_key_def order_key_def naive_key_def mk_datetime_def)
  then show ?thesis using assms(1) cmp by (simp add: sort_ascending_comparable)
qed


section \<open>The two directions\<close>

lemma filter_key_rev_sort:
  "filter (\<lambda>x. f k = f x) (rev (sort_key f (rev xs))) = filter (\<lambda>x. f k = f x) xs"
proof -
  have "filter (\<lambda>x. f x = f k) (sort_key f (rev xs)) = filter (\<lambda>x. f x = f k) (rev xs)"
    by (rule sort_key_stable)
  then have "rev (filter (\<lambda>x. f x = f k) (sort_key f (rev xs))) = filter (\<lambda>x. f x = f k) xs"
    by (simp add: rev_filter)
  then show ?thesis by (simp add: rev_filter eq_commute [of "f k"])
qed

lemma sort_rev_sort_rev:
  assumes "sorted (map f xs)"
  shows "sort_key f (rev (sort_key f (rev xs))) = xs"
proof (rule properties_for_sort_key)
  show "mset xs = mset (rev (sort_key f (rev xs)))" by simp
  show "sorted (map f xs)" by (rule assms)
  show "filter (\<lambda>x. f k = f x) xs = filter (\<lambda>x. f k = f x) (rev (sort_key f (rev xs)))" for k
    by (simp only: filter_key_rev_sort)
qed

lemma sort_rev_distinct:
  assumes "distinct (map f xs)"
  shows "sort_key f (rev (sort_key f xs)) = sort_key f xs"
proof (rule sort_key_inj_key_eq)
  show "mset (rev (sort_key f xs)) = mset (sort_key f xs)" by simp
  from assms have "inj_on f (set xs)" by (simp add: distinct_map)
  then show "inj_on f (set (rev (sort_key f xs)))" by simp
  show "sorted (map f (sort_key f xs))" by simp
qed

text \<open>
  C4, as the code has it. Ascending, then descending, then ascending: whenever the first
  sort completes, the other two complete as well, each keeps the entries, and the second
  ascending sort gives the sequence of the first again. The descending sequence is in
  descending order, and entries that \<open><\<close> does not tell apart, so in particular entries
  with the same time, keep their insertion order in it, as they do in the ascending
  one. The descending sequence is therefore the reverse of the ascending one when no
  two entries share a time. The first sort completes on every timeline whose times can
  be compared.
\<close>

theorem sort_directions:
  "(sort_ascending interrupted st = (o1, a) \<and> sort_descending interrupted a = (o2, d) \<and>
      sort_ascending interrupted d = (o3, a') \<and> completed o1 \<longrightarrow>
       completed o2 \<and> completed o3 \<and>
       mset (log_entries a) = mset (log_entries st) \<and>
       mset (log_entries d) = mset (log_entries st) \<and>
       log_entries a' = log_entries a \<and>
       sorted (map time_key (log_entries a)) \<and>
       sorted (rev (map time_key (log_entries d))) \<and>
       (\<forall>k. filter (\<lambda>e. time_key e = k) (log_entries d) =
            filter (\<lambda>e. time_key e = k) (log_entries st)) \<and>
       (\<forall>t. filter (\<lambda>e. parsed_time e = t) (log_entries d) =
            filter (\<lambda>e. parsed_time e = t) (log_entries st)) \<and>
       (distinct (map time_key (log_entries st)) \<longrightarrow> log_entries d = rev (log_entries a))) \<and>
   (comparable (log_entries st) \<longrightarrow> completed (fst (sort_ascending interrupted st)))"
proof (rule conjI; rule impI)
  assume "sort_ascending interrupted st = (o1, a) \<and> sort_descending interrupted a = (o2, d) \<and>
      sort_ascending interrupted d = (o3, a') \<and> completed o1"
  then have s: "sort_ascending interrupted st = (o1, a)" "sort_descending interrupted a = (o2, d)"
    "sort_ascending interrupted d = (o3, a')" "completed o1" by simp_all
  define A where "A = sort_key time_key (log_entries st)"
  define D where "D = rev (sort_key time_key (rev A))"
  from sort_ascending_completed [OF s(1,4)]
  have cmp: "comparable (log_entries st)" and la: "log_entries a = A" by (simp_all add: A_def)
  have cA: "comparable (log_entries a)" using cmp by (simp add: la A_def)
  from sort_descending_total [OF cA, of interrupted] s(2)
  have c2: "completed o2" and ld: "log_entries d = D" by (auto simp: D_def la)
  have cD: "comparable (log_entries d)" using cA by (simp add: ld D_def la comparable_rev)
  from sort_ascending_total [OF cD, of interrupted] s(3)
  have c3: "completed o3" and la': "log_entries a' = sort_key time_key D" by (auto simp: ld)
  have sA: "sorted (map time_key A)" by (simp add: A_def)
  have r1: "log_entries a' = A"
    using sort_rev_sort_rev [OF sA] by (simp add: la' D_def)
  have r2: "sorted (rev (map time_key D))"
    by (simp add: D_def rev_map)
  have r3: "filter (\<lambda>e. parsed_time e = t) D = filter (\<lambda>e. parsed_time e = t) (log_entries st)" for t
    by (simp add: D_def A_def filter_time_sort_reverse filter_time_sort)
  have r3': "filter (\<lambda>e. time_key e = k) D = filter (\<lambda>e. time_key e = k) (log_entries st)" for k
    by (simp add: D_def A_def rev_filter [symmetric] sort_key_stable)
  have r4: "distinct (map time_key (log_entries st)) \<longrightarrow> D = rev A"
    using sort_rev_distinct [of time_key "log_entries st"] by (simp add: D_def A_def)
  have m1: "mset A = mset (log_entries st)" by (simp add: A_def)
  have m2: "mset D = mset (log_entries st)" by (simp add: D_def A_def)
  show "completed o2 \<and> completed o3 \<and>
       mset (log_entries a) = mset (log_entries st) \<and>
       mset (log_entries d) = mset (log_entries st) \<and>
       log_entries a' = log_entries a \<and>
       sorted (map time_key (log_entries a)) \<and>
       sorted (rev (map time_key (log_entries d))) \<and>
       (\<forall>k. filter (\<lambda>e. time_key e = k) (log_entries d) =
            filter (\<lambda>e. time_key e = k) (log_entries st)) \<and>
       (\<forall>t. filter (\<lambda>e. parsed_time e = t) (log_entries d) =
            filter (\<lambda>e. parsed_time e = t) (log_entries st)) \<and>
       (distinct (map time_key (log_entries st)) \<longrightarrow> log_entries d = rev (log_entries a))"
    using r4 by (simp add: c2 c3 la ld r1 r2 r3 r3' m1 m2 sA)
next
  assume "comparable (log_entries st)"
  from sort_ascending_total [OF this, of interrupted]
  show "completed (fst (sort_ascending interrupted st))" by auto
qed

theorem sort_directions_witness:
  "comparable (log_entries (example_app\<lparr>log_entries := [entry1, entry2]\<rparr>)) \<and>
   distinct (map time_key (log_entries (example_app\<lparr>log_entries := [entry1, entry2]\<rparr>))) \<and>
   asc_then_desc keep_order (example_app\<lparr>log_entries := [entry1, entry2]\<rparr>) =
     (Sorted, Sorted, [entry2, entry1], [entry1, entry2])"
proof -
  define st where "st = example_app\<lparr>log_entries := [entry1, entry2]\<rparr>"
  have h1: "comparable (log_entries st)"
    by (simp add: st_def comparable_def entry1_def entry2_def mk_datetime_def)
  have h2: "log_entries st \<noteq> []" by (simp add: st_def)
  have h3: "distinct (map time_key (log_entries st))"
    by (simp add: st_def time_key_def order_key_def naive_key_def mk_datetime_def
          entry1_def entry2_def)
  have k: "sort_key time_key (log_entries st) = [entry2, entry1]"
    by (simp add: st_def time_key_def order_key_def naive_key_def mk_datetime_def
          entry1_def entry2_def)
  obtain o1 a where s1: "sort_ascending keep_order st = (o1, a)"
    by (cases "sort_ascending keep_order st")
  obtain o2 d where s2: "sort_descending keep_order a = (o2, d)"
    by (cases "sort_descending keep_order a")
  obtain o3 a' where s3: "sort_ascending keep_order d = (o3, a')"
    by (cases "sort_ascending keep_order d")
  note inst = sort_directions [of keep_order st o1 a o2 d o3 a']
  from inst h1 s1 have c1: "completed o1" by simp
  from inst s1 s2 s3 c1 h3 have rv: "log_entries d = rev (log_entries a)" by blast
  from s1 h1 h2 k have a: "o1 = Sorted" "log_entries a = [entry2, entry1]"
    by (auto simp: sort_ascending_comparable)
  then have "comparable (log_entries a)" "log_entries a \<noteq> []"
    by (simp_all add: comparable_def entry1_def entry2_def mk_datetime_def)
  with s2 have "o2 = Sorted" by (simp add: sort_descending_comparable)
  with s1 s2 a rv have "asc_then_desc keep_order st = (Sorted, Sorted, [entry2, entry1], [entry1, entry2])"
    by (simp add: asc_then_desc_def)
  with h1 h3 show ?thesis unfolding st_def by blast
qed

text \<open>
  C4 as it is stated asks for the exact reverse also when entries share a time. For the
  three entries above the ascending sequence is entry 2, 1, 3 and the descending one is
  entry 1, 3, 2: entries 1 and 3 have the same time and are not swapped.
\<close>

theorem reverse_sequence_counterexample:
  "asc_then_desc keep_order example_app =
     (Sorted, Sorted, [entry2, entry1, entry3], [entry1, entry3, entry2]) \<and>
   [entry1, entry3, entry2] \<noteq> rev [entry2, entry1, entry3] \<and>
   parsed_time entry1 = parsed_time entry3"
proof -
  have h: "comparable [entry1, entry2, entry3]" "comparable [entry2, entry1, entry3]"
    by (simp_all add: comparable_def entry1_def entry2_def entry3_def mk_datetime_def)
  have k: "sort_key time_key [entry1, entry2, entry3] = [entry2, entry1, entry3]"
    "sort_key time_key [entry3, entry1, entry2] = [entry2, entry3, entry1]"
    by (simp_all add: time_key_def order_key_def naive_key_def mk_datetime_def
          entry1_def entry2_def entry3_def)
  have "asc_then_desc keep_order example_app =
      (Sorted, Sorted, [entry2, entry1, entry3], [entry1, entry3, entry2])"
    using h k
    by (simp add: asc_then_desc_def example_app_def new_app_def sort_ascending_comparable
          sort_descending_comparable)
  moreover have "entry1 \<noteq> entry3" by (simp add: entry1_def entry3_def)
  moreover have "parsed_time entry1 = parsed_time entry3" by (simp add: entry1_def entry3_def)
  ultimately show ?thesis by simp
qed

section \<open>The snapshot file\<close>

lemma double_quotes_append: "double_quotes (u @ v) = double_quotes u @ double_quotes v"
  by (simp add: double_quotes_def)

lemma double_quotes_none: "CHR 0x22 \<notin> set s \<Longrightarrow> double_quotes s = s"
  by (induction s) (auto simp: double_quotes_def)

text \<open>
  On a non-empty entry list whose times can be compared, both applications write the
  file \<open>investigation_logs.csv\<close> of the investigation's folder anew: the header row, then
  one row for each entry, in ascending order of time, equal times in list order.
  Whatever the file held before is replaced, and no other file changes. The desktop
  application puts a field in quotes when it has a comma or a quote; the web
  application puts every field of an entry in quotes. In both, a quote inside the
  description is written twice.
\<close>

lemma snapshot_written:
  "(log_entries st \<noteq> [] \<and> comparable (log_entries st) \<longrightarrow>
      files (auto_save_logs_to_csv st) =
        (files st)(get_investigation_csv_path (investigation_name st) \<mapsto>
           csv_text (sort_key time_key (log_entries st)))) \<and>
   (entries \<noteq> [] \<and> comparable entries \<longrightarrow>
      save_logs_to_file d name entries =
        Inr (d(get_investigation_csv_path name \<mapsto> web_csv_text (sort_key time_key entries)),
             Some (get_investigation_csv_path name))) \<and>
   sorted (map time_key (sort_key time_key entries)) \<and>
   mset (sort_key time_key entries) = mset entries \<and>
   get_investigation_csv_path name = (safe_name name, ''investigation_logs.csv'') \<and>
   csv_text es =
     ''Timestamp,Severity,Description'' @ [CHR 0x0D, CHR 0x0A] @
     concat (map (\<lambda>e. csv_field (timestamp e) @ '','' @ csv_field (severity e) @ '','' @
                       csv_field (description e) @ [CHR 0x0D, CHR 0x0A]) es) \<and>
   web_csv_text es =
     ''Timestamp,Severity,Description'' @ [CHR 0x0A] @
     concat (map (\<lambda>e. [CHR 0x22] @ timestamp e @ [CHR 0x22] @ '','' @
                       [CHR 0x22] @ severity e @ [CHR 0x22] @ '','' @
                       [CHR 0x22] @ double_quotes (description e) @ [CHR 0x22] @ [CHR 0x0A]) es) \<and>
   (CHR '','' \<in> set s \<or> CHR 0x22 \<in> set s \<longrightarrow>
      csv_field s = [CHR 0x22] @ double_quotes s @ [CHR 0x22]) \<and>
   double_quotes (u @ CHR 0x22 # v) = double_quotes u @ [CHR 0x22, CHR 0x22] @ double_quotes v \<and>
   (CHR 0x22 \<notin> set s \<longrightarrow> double_quotes s = s)"
proof -
  have a: "log_entries st \<noteq> [] \<and> comparable (log_entries st) \<longrightarrow>
      files (auto_save_logs_to_csv st) =
        (files st)(get_investigation_csv_path (investigation_name st) \<mapsto>
           csv_text (sort_key time_key (log_entries st)))"
    by (simp add: auto_save_logs_to_csv_def py_sort_comparable)
  have b: "entries \<noteq> [] \<and> comparable entries \<longrightarrow>
      save_logs_to_file d name entries =
        Inr (d(get_investigation_csv_path name \<mapsto> web_csv_text (sort_key time_key entries)),
             Some (get_investigation_csv_path name))"
    by (simp add: save_logs_to_file_def py_sort_comparable)
  have hdr: "writerow ''Timestamp'' ''Severity'' ''Description'' =
      ''Timestamp,Severity,Description'' @ [CHR 0x0D, CHR 0x0A]"
    by code_simp
  have c: "csv_text es =
     ''Timestamp,Severity,Description'' @ [CHR 0x0D, CHR 0x0A] @
     concat (map (\<lambda>e. csv_field (timestamp e) @ '','' @ csv_field (severity e) @ '','' @
                       csv_field (description e) @ [CHR 0x0D, CHR 0x0A]) es)"
    unfolding csv_text_def hdr by (simp add: writerow_def)
  have d: "web_csv_text es =
     ''Timestamp,Severity,Description'' @ [CHR 0x0A] @
     concat (map (\<lambda>e. [CHR 0x22] @ timestamp e @ [CHR 0x22] @ '','' @
                       [CHR 0x22] @ severity e @ [CHR 0x22] @ '','' @
                       [CHR 0x22] @ double_quotes (description e) @ [CHR 0x22] @ [CHR 0x0A]) es)"
    by (simp add: web_csv_text_def web_row_def [abs_def])
  have e: "CHR '','' \<in> set s \<or> CHR 0x22 \<in> set s \<longrightarrow>
      csv_field s = [CHR 0x22] @ double_quotes s @ [CHR 0x22]"
    by (auto simp: csv_field_def needs_quoting_def list_ex_iff)
  have f: "double_quotes (u @ CHR 0x22 # v) = double_quotes u @ [CHR 0x22, CHR 0x22] @ double_quotes v"
    by (simp add: double_quotes_def)
  have g: "CHR 0x22 \<notin> set s \<longrightarrow> double_quotes s = s"
    by (simp add: double_quotes_none)
  have h: "get_investigation_csv_path name = (safe_name name, ''investigation_logs.csv'')"
    by (simp add: get_investigation_csv_path_def)
  from a b c d e f g h show ?thesis by simp
qed

text \<open>
  C5. The claim asks that the snapshot holds exactly the current entries whenever the
  list is not empty. The applications write it so on every list whose times can be
  compared, as shown above. They do not on a list that holds a naive and an aware time.
  In the web application, after an entry with the timestamp \<open>2024-01-15 10:00:00\<close> and one
  with \<open>2024-01-15 12:00:00+02:00\<close> are added, both requests are answered with status 200
  and the session holds both entries, but the sort inside the writer raises \<open>TypeError\<close>
  before the file is opened: the snapshot still holds the first entry only. The desktop
  application removes the offset and writes both rows for these two inputs; it leaves
  the snapshot behind in the same way when the second timestamp is
  \<open>2024-01-15 10:00:00+05:00Z\<close>.
\<close>

theorem snapshot_stale_on_mixed_timeline:
  "fst (add_entry fromisoformat clock ''id2'' web_first
          ''2024-01-15 12:00:00+02:00'' ''offset event'' ''High'') = 200 \<and>
   map data_timestamp (session_log_entries web_mixed) =
     [''2024-01-15 10:00:00'', ''2024-01-15 12:00:00+02:00''] \<and>
   web_files web_first (''case'', ''investigation_logs.csv'') = Some (web_csv_text [entry1]) \<and>
   web_files web_mixed (''case'', ''investigation_logs.csv'') = Some (web_csv_text [entry1]) \<and>
   save_logs_to_file (web_files web_first) ''case'' [entry1, entry_tz] = Inl TypeError \<and>
   files desktop_offset (''case'', ''investigation_logs.csv'') =
     Some (csv_text [entry1, entry_tz\<lparr>parsed_time := mk_datetime 2024 1 15 12 0 0 0 None\<rparr>]) \<and>
   log_entries desktop_mixed = [entry1, entry_tz_z] \<and>
   files desktop_mixed (''case'', ''investigation_logs.csv'') = Some (csv_text [entry1])"
proof -
  have a: "fst (add_entry fromisoformat clock ''id2'' web_first
          ''2024-01-15 12:00:00+02:00'' ''offset event'' ''High'') = 200" by code_simp
  have b: "map data_timestamp (session_log_entries web_mixed) =
     [''2024-01-15 10:00:00'', ''2024-01-15 12:00:00+02:00'']" by code_simp
  have c: "web_files web_first (''case'', ''investigation_logs.csv'') =
      Some (web_csv_text [entry1])" by code_simp
  have d: "web_files web_mixed (''case'', ''investigation_logs.csv'') =
      Some (web_csv_text [entry1])" by code_simp
  have "entry_lt entry_tz entry1 = Inl TypeError"
    by (simp add: entry_lt_def dt_lt_def entry1_def entry_tz_def mk_datetime_def)
  then have e: "save_logs_to_file (web_files web_first) ''case'' [entry1, entry_tz] = Inl TypeError"
    by (simp add: save_logs_to_file_def)
  have f: "files desktop_offset (''case'', ''investigation_logs.csv'') =
     Some (csv_text [entry1, entry_tz\<lparr>parsed_time := mk_datetime 2024 1 15 12 0 0 0 None\<rparr>])"
    by code_simp
  have g: "log_entries desktop_mixed = [entry1, entry_tz_z]" by code_simp
  have h: "files desktop_mixed (''case'', ''investigation_logs.csv'') = Some (csv_text [entry1])"
    by code_simp
  from a b c d e f g h show ?thesis by blast
qed

section \<open>Adding an entry\<close>

lemma parse_timestamp_Inr: "\<exists>t out. parse_timestamp isoparse now ts = Inr (t, out)"
proof -
  obtain r where "try_formats (strip ts) formats = Inr r"
    using try_formats_total by blast
  then show ?thesis
    by (auto simp: parse_timestamp_def split: option.splits sum.splits)
qed

lemma web_parse_timestamp_Inr: "\<exists>t out. web_parse_timestamp isoparse now ts = Inr (t, out)"
proof -
  obtain r where "try_formats (strip ts) web_formats = Inr r"
    using try_formats_total by blast
  then show ?thesis
    by (auto simp: web_parse_timestamp_def split: option.splits sum.splits)
qed

lemma LogEntry_init_Inr:
  "\<exists>t. LogEntry_init isoparse now ts desc sev =
     Inr \<lparr>timestamp = ts, description = desc, severity = sev, parsed_time = t\<rparr>"
  using parse_timestamp_Inr [of isoparse now ts] by (auto simp: LogEntry_init_def)

lemma WebLogEntry_init_Inr:
  "\<exists>t. WebLogEntry_init isoparse now uuid ts desc sev gid =
     Inr \<lparr>timestamp = ts, description = desc, severity = sev, parsed_time = t,
          entry_id = (case gid of None \<Rightarrow> uuid | Some i \<Rightarrow> if i = [] then uuid else i),
          created_at = now\<rparr>"
  using web_parse_timestamp_Inr [of isoparse now ts] by (auto simp: WebLogEntry_init_def)

lemma get_session_logs_Inr: "\<exists>es. get_session_logs isoparse now uuid ds = Inr es"
proof (induction ds)
  case Nil show ?case by simp
next
  case (Cons d ds)
  then obtain es where es: "get_session_logs isoparse now uuid ds = Inr es" by blast
  obtain e where "WebLogEntry_init isoparse now uuid (data_timestamp d) (data_description d)
             (data_severity d) (Some (data_id d)) = Inr e"
    using WebLogEntry_init_Inr [of isoparse now uuid "data_timestamp d" "data_description d"
        "data_severity d" "Some (data_id d)"] by blast
  with es show ?case by simp
qed

lemma to_dict_session:
  "get_session_logs isoparse now uuid ds = Inr es \<Longrightarrow> \<forall>d \<in> set ds. data_id d \<noteq> [] \<Longrightarrow>
   map to_dict es = ds"
proof (induction ds arbitrary: es)
  case Nil then show ?case by simp
next
  case (Cons d ds)
  obtain t where t: "WebLogEntry_init isoparse now uuid (data_timestamp d) (data_description d)
             (data_severity d) (Some (data_id d)) =
     Inr \<lparr>timestamp = data_timestamp d, description = data_description d,
          severity = data_severity d, parsed_time = t,
          entry_id = (if data_id d = [] then uuid else data_id d), created_at = now\<rparr>"
    using WebLogEntry_init_Inr [of isoparse now uuid "data_timestamp d" "data_description d"
        "data_severity d" "Some (data_id d)"] by auto
  obtain es' where es': "get_session_logs isoparse now uuid ds = Inr es'"
    using get_session_logs_Inr by blast
  from Cons.prems(1) t es' have es: "es =
     \<lparr>timestamp = data_timestamp d, description = data_description d,
          severity = data_severity d, parsed_time = t,
          entry_id = (if data_id d = [] then uuid else data_id d), created_at = now\<rparr> # es'"
    by simp
  have tl: "map to_dict es' = ds" using Cons.IH [OF es'] Cons.prems(2) by simp
  have "data_id d \<noteq> []" using Cons.prems(2) by simp
  then have hd: "to_dict \<lparr>timestamp = data_timestamp d, description = data_description d,
          severity = data_severity d, parsed_time = t,
          entry_id = (if data_id d = [] then uuid else data_id d), created_at = now\<rparr> = d"
    by (simp add: to_dict_def)
  show ?case unfolding es using tl hd by simp
qed

text \<open>
  C7, as the code has it. In the desktop application an entry is refused exactly when
  the timestamp or the description is blank after trimming: then an error box is shown
  and the state is as before; otherwise the entry, with the trimmed fields, is appended
  to the list. In the web application an entry is refused with status 400, the state
  being as before, exactly when the trimmed timestamp is blank or the trimmed
  description has fewer than five characters; otherwise the entry is appended to the
  entries of the session.
\<close>

theorem insert_validation:
  "(strip tf = [] \<or> strip df = [] \<longrightarrow>
      (\<exists>msg. add_log_entry isoparse now st tf df sev = (Some msg, st))) \<and>
   (strip tf \<noteq> [] \<and> strip df \<noteq> [] \<longrightarrow>
      (\<exists>st' e. add_log_entry isoparse now st tf df sev = (None, st') \<and>
         log_entries st' = log_entries st @ [e] \<and>
         timestamp e = strip tf \<and> description e = strip df \<and> severity e = sev)) \<and>
   (strip tf = [] \<or> length (strip df) < 5 \<longrightarrow>
      add_entry isoparse now uuid ws tf df sev = (400, ws)) \<and>
   (strip tf \<noteq> [] \<and> 5 \<le> length (strip df) \<longrightarrow>
      (\<exists>ws' es. add_entry isoparse now uuid ws tf df sev = (200, ws') \<and>
         get_session_logs isoparse now uuid (session_log_entries ws) = Inr es \<and>
         session_log_entries ws' =
           map to_dict es @
           [\<lparr>data_id = uuid, data_timestamp = strip tf, data_description = strip df,
             data_severity = sev\<rparr>] \<and>
         ((\<forall>d \<in> set (session_log_entries ws). data_id d \<noteq> []) \<longrightarrow>
            map to_dict es = session_log_entries ws)))"
proof -
  have a: "strip tf = [] \<or> strip df = [] \<longrightarrow>
      (\<exists>msg. add_log_entry isoparse now st tf df sev = (Some msg, st))"
    by (auto simp: add_log_entry_def Let_def)
  have b: "strip tf \<noteq> [] \<and> strip df \<noteq> [] \<longrightarrow>
      (\<exists>st' e. add_log_entry isoparse now st tf df sev = (None, st') \<and>
         log_entries st' = log_entries st @ [e] \<and>
         timestamp e = strip tf \<and> description e = strip df \<and> severity e = sev)"
  proof (intro impI, elim conjE)
    assume h: "strip tf \<noteq> []" "strip df \<noteq> []"
    obtain t where t: "LogEntry_init isoparse now (strip tf) (strip df) sev =
       Inr \<lparr>timestamp = strip tf, description = strip df, severity = sev, parsed_time = t\<rparr>"
      using LogEntry_init_Inr by blast
    show "\<exists>st' e. add_log_entry isoparse now st tf df sev = (None, st') \<and>
         log_entries st' = log_entries st @ [e] \<and>
         timestamp e = strip tf \<and> description e = strip df \<and> severity e = sev"
      using h t by (simp add: add_log_entry_def Let_def)
  qed
  have c: "strip tf = [] \<or> length (strip df) < 5 \<longrightarrow>
      add_entry isoparse now uuid ws tf df sev = (400, ws)"
    by (auto simp: add_entry_def Let_def)
  have d: "strip tf \<noteq> [] \<and> 5 \<le> length (strip df) \<longrightarrow>
      (\<exists>ws' es. add_entry isoparse now uuid ws tf df sev = (200, ws') \<and>
         get_session_logs isoparse now uuid (session_log_entries ws) = Inr es \<and>
         session_log_entries ws' =
           map to_dict es @
           [\<lparr>data_id = uuid, data_timestamp = strip tf, data_description = strip df,
             data_severity = sev\<rparr>] \<and>
         ((\<forall>d \<in> set (session_log_entries ws). data_id d \<noteq> []) \<longrightarrow>
            map to_dict es = session_log_entries ws))"
  proof (intro impI, elim conjE)
    assume h: "strip tf \<noteq> []" "5 \<le> length (strip df)"
    then have h': "strip df \<noteq> []" "\<not> length (strip df) < 5" by auto
    obtain t where t: "WebLogEntry_init isoparse now uuid (strip tf) (strip df) sev None =
       Inr \<lparr>timestamp = strip tf, description = strip df, severity = sev, parsed_time = t,
            entry_id = uuid, created_at = now\<rparr>"
      using WebLogEntry_init_Inr [of isoparse now uuid "strip tf" "strip df" sev None] by auto
    obtain es where es: "get_session_logs isoparse now uuid (session_log_entries ws) = Inr es"
      using get_session_logs_Inr by blast
    have sess: "session_log_entries (save_after_change ws xs) = map to_dict xs" for xs
      by (simp add: save_after_change_def Let_def split: sum.splits prod.splits)
    have ae: "add_entry isoparse now uuid ws tf df sev =
        (200, save_after_change ws (es @ [\<lparr>timestamp = strip tf, description = strip df,
            severity = sev, parsed_time = t, entry_id = uuid, created_at = now\<rparr>]))"
      using h h' t es by (simp add: add_entry_def Let_def)
    show "\<exists>ws' es. add_entry isoparse now uuid ws tf df sev = (200, ws') \<and>
         get_session_logs isoparse now uuid (session_log_entries ws) = Inr es \<and>
         session_log_entries ws' =
           map to_dict es @
           [\<lparr>data_id = uuid, data_timestamp = strip tf, data_description = strip df,
             data_severity = sev\<rparr>] \<and>
         ((\<forall>d \<in> set (session_log_entries ws). data_id d \<noteq> []) \<longrightarrow>
            map to_dict es = session_log_entries ws)"
    proof -
      have new: "to_dict \<lparr>timestamp = strip tf, description = strip df,
            severity = sev, parsed_time = t, entry_id = uuid, created_at = now\<rparr> =
          \<lparr>data_id = uuid, data_timestamp = strip tf, data_description = strip df,
             data_severity = sev\<rparr>"
        by (simp add: to_dict_def)
      show ?thesis
        using ae es to_dict_session [OF es] new by (simp add: sess)
    qed
  qed
  from a b c d show ?thesis by blast
qed

theorem insert_validation_witness:
  "strip ''  '' = [] \<and>
   add_log_entry fromisoformat clock (new_app ''case'') ''  '' ''first event'' ''Low'' =
     (Some ''Please enter a timestamp'', new_app ''case'') \<and>
   add_entry fromisoformat clock ''id1'' (web_new ''case'') ''  '' ''first event'' ''Low'' =
     (400, web_new ''case'') \<and>
   strip '' 2024-01-15 10:00:00 '' = ''2024-01-15 10:00:00'' \<and>
   strip ''first event'' = ''first event'' \<and>
   fst (add_log_entry fromisoformat clock (new_app ''case'') '' 2024-01-15 10:00:00 ''
          ''first event'' ''Low'') = None \<and>
   map timestamp (log_entries (snd (add_log_entry fromisoformat clock (new_app ''case'')
          '' 2024-01-15 10:00:00 '' ''first event'' ''Low''))) = [''2024-01-15 10:00:00''] \<and>
   fst (add_entry fromisoformat clock ''id1'' (web_new ''case'') '' 2024-01-15 10:00:00 ''
          ''first event'' ''Low'') = 200 \<and>
   map data_id (session_log_entries (snd (add_entry fromisoformat clock ''id1'' (web_new ''case'')
          '' 2024-01-15 10:00:00 '' ''first event'' ''Low''))) = [''id1'']"
proof -
  have b1: "strip ''  '' = []" by code_simp
  have g1: "strip '' 2024-01-15 10:00:00 '' = ''2024-01-15 10:00:00''" by code_simp
  have g2: "strip ''first event'' = ''first event''" by code_simp
  note blank = insert_validation [of "''  ''" "''first event''" fromisoformat clock
      "new_app ''case''" "''Low''" "''id1''" "web_new ''case''"]
  note good = insert_validation [of "'' 2024-01-15 10:00:00 ''" "''first event''" fromisoformat
      clock "new_app ''case''" "''Low''" "''id1''" "web_new ''case''"]
  from blank b1 obtain msg where m: "add_log_entry fromisoformat clock (new_app ''case'') ''  ''
      ''first event'' ''Low'' = (Some msg, new_app ''case'')" by blast
  then have m': "add_log_entry fromisoformat clock (new_app ''case'') ''  '' ''first event'' ''Low'' =
     (Some ''Please enter a timestamp'', new_app ''case'')"
    using b1 by (simp add: add_log_entry_def)
  from blank b1 have w: "add_entry fromisoformat clock ''id1'' (web_new ''case'') ''  ''
      ''first event'' ''Low'' = (400, web_new ''case'')" by blast
  have ne: "strip '' 2024-01-15 10:00:00 '' \<noteq> []" "strip ''first event'' \<noteq> []"
    "5 \<le> length (strip ''first event'')" by (simp_all add: g1 g2)
  from good ne obtain st' e where d: "add_log_entry fromisoformat clock (new_app ''case'')
        '' 2024-01-15 10:00:00 '' ''first event'' ''Low'' = (None, st')"
      "log_entries st' = log_entries (new_app ''case'') @ [e]"
      "timestamp e = strip '' 2024-01-15 10:00:00 ''" by blast
  from good ne obtain ws' es where x: "add_entry fromisoformat clock ''id1'' (web_new ''case'')
        '' 2024-01-15 10:00:00 '' ''first event'' ''Low'' = (200, ws')"
      "get_session_logs fromisoformat clock ''id1'' (session_log_entries (web_new ''case'')) = Inr es"
      "session_log_entries ws' = map to_dict es @
           [\<lparr>data_id = ''id1'', data_timestamp = strip '' 2024-01-15 10:00:00 '',
             data_description = strip ''first event'', data_severity = ''Low''\<rparr>]" by blast
  from x(2) have "es = []" by (simp add: web_new_def)
  with x have x': "map data_id (session_log_entries ws') = [''id1'']" by simp
  from d have d': "map timestamp (log_entries st') = [''2024-01-15 10:00:00'']"
    by (simp add: new_app_def g1)
  show ?thesis using b1 m' w g1 g2 d(1) d' x(1) x' by simp
qed

text \<open>
  C7 as it is stated appends every entry whose two fields are not blank. The web
  application refuses the description \<open>boom\<close>, which is not blank, because it is shorter
  than five characters.
\<close>

theorem min_length_counterexample:
  "strip ''2024-01-15 10:00:00'' = ''2024-01-15 10:00:00'' \<and> strip ''boom'' = ''boom'' \<and>
   add_entry fromisoformat clock ''id1'' (web_new ''case'') ''2024-01-15 10:00:00'' ''boom'' ''Low'' =
     (400, web_new ''case'')"
proof -
  have a: "strip ''2024-01-15 10:00:00'' = ''2024-01-15 10:00:00''" by code_simp
  have b: "strip ''boom'' = ''boom''" by code_simp
  show ?thesis using a b by (simp add: add_entry_def)
qed

section \<open>Deleting the last entry\<close>

text \<open>
  C6. In the desktop application the snapshot file is deleted when the entry list
  becomes empty. In the web application it is not: \<open>save_logs_to_file\<close> returns at once
  on an empty list. After one entry is added and then deleted, the session of the web
  application has no entry, and the snapshot file still holds the row of the deleted
  entry; the desktop application has no entry and no file.
\<close>

theorem last_delete_keeps_snapshot:
  "web_add_then_delete fromisoformat clock ''id1'' (web_new ''case'')
       ''2024-01-15 10:00:00'' ''first event'' ''Low'' =
     (200, 200, [], Some (web_csv_text [entry1])) \<and>
   add_then_delete fromisoformat clock (new_app ''case'')
       ''2024-01-15 10:00:00'' ''first event'' ''Low'' = ([], None)"
  by code_simp

section \<open>Analysis reports\<close>

lemma digit_char_inj:
  "0 \<le> a \<Longrightarrow> a < 10 \<Longrightarrow> 0 \<le> b \<Longrightarrow> b < 10 \<Longrightarrow> digit_char a = digit_char b \<Longrightarrow> a = b"
proof -
  assume h: "0 \<le> a" "a < 10" "0 \<le> b" "b < 10" "digit_char a = digit_char b"
  then have "(of_char (char_of (48 + a)) :: int) = of_char (char_of (48 + b))"
    by (simp add: digit_char_def)
  then have "(48 + a) mod 256 = (48 + b) mod 256" by simp
  with h show "a = b" by simp
qed

lemma digit_char_mod_inj:
  "digit_char (a mod 10) = digit_char (b mod 10) \<Longrightarrow> a mod 10 = b mod 10"
  by (rule digit_char_inj) simp_all

lemma zpad2: "zpad 2 n = [digit_char (n div 10 mod 10), digit_char (n mod 10)]"
  by (simp add: zpad_def eval_nat_numeral)

lemma zpad4:
  "zpad 4 n = [digit_char (n div 1000 mod 10), digit_char (n div 100 mod 10),
               digit_char (n div 10 mod 10), digit_char (n mod 10)]"
  by (simp add: zpad_def eval_nat_numeral)

lemma div_mod_10_eq: "(x::int) div 10 = y div 10 \<Longrightarrow> x mod 10 = y mod 10 \<Longrightarrow> x = y"
  by (metis div_mult_mod_eq)

lemma zpad2_inj:
  assumes "0 \<le> a" "a < 100" "0 \<le> b" "b < 100" "zpad 2 a = zpad 2 b"
  shows "a = b"
proof -
  from assms(5) have e: "a div 10 mod 10 = b div 10 mod 10" "a mod 10 = b mod 10"
    by (auto simp: zpad2 dest: digit_char_mod_inj)
  from assms(1-4) have "0 \<le> a div 10" "a div 10 < 10" "0 \<le> b div 10" "b div 10 < 10"
    by simp_all
  with e(1) have "a div 10 = b div 10" by simp
  then show ?thesis using e(2) by (rule div_mod_10_eq)
qed

lemma zpad4_inj:
  assumes "0 \<le> a" "a < 10000" "0 \<le> b" "b < 10000" "zpad 4 a = zpad 4 b"
  shows "a = b"
proof -
  from assms(5) have e: "a div 1000 mod 10 = b div 1000 mod 10"
    "a div 100 mod 10 = b div 100 mod 10"
    "a div 10 mod 10 = b div 10 mod 10" "a mod 10 = b mod 10"
    by (auto simp: zpad4 dest: digit_char_mod_inj)
  have n: "x div 100 = x div 10 div 10" "x div 1000 = x div 10 div 10 div 10" for x :: int
    by (simp_all add: zdiv_zmult2_eq)
  from assms(1-4) have "0 \<le> a div 1000" "a div 1000 < 10" "0 \<le> b div 1000" "b div 1000 < 10"
    by simp_all
  with e(1) have "a div 1000 = b div 1000" by simp
  then have "a div 10 div 10 div 10 = b div 10 div 10 div 10" by (simp add: n)
  moreover from e(2) have "a div 10 div 10 mod 10 = b div 10 div 10 mod 10" by (simp add: n)
  ultimately have "a div 10 div 10 = b div 10 div 10" by (rule div_mod_10_eq)
  then have "a div 10 = b div 10" using e(3) by (rule div_mod_10_eq)
  then show ?thesis using e(4) by (rule div_mod_10_eq)
qed

lemma length_zpad [simp]: "length (zpad w n) = w"
  by (simp add: zpad_def)

lemma strftime_stamp_inj:
  assumes "valid_datetime s" "valid_datetime t" "strftime_stamp s = strftime_stamp t"
  shows "year s = year t \<and> month s = month t \<and> day s = day t \<and> hour s = hour t \<and>
         minute s = minute t \<and> second s = second t"
proof -
  from assms(3) have e: "zpad 4 (year s) = zpad 4 (year t)" "zpad 2 (month s) = zpad 2 (month t)"
    "zpad 2 (day s) = zpad 2 (day t)" "zpad 2 (hour s) = zpad 2 (hour t)"
    "zpad 2 (minute s) = zpad 2 (minute t)" "zpad 2 (second s) = zpad 2 (second t)"
    by (simp_all add: strftime_stamp_def)
  have d: "days_in_month y m \<le> 31" for y m by (simp add: days_in_month_def)
  from assms(1,2) have r: "0 \<le> year s" "year s < 10000" "0 \<le> year t" "year t < 10000"
    "0 \<le> month s" "month s < 100" "0 \<le> month t" "month t < 100"
    "0 \<le> day s" "day s < 100" "0 \<le> day t" "day t < 100"
    "0 \<le> hour s" "hour s < 100" "0 \<le> hour t" "hour t < 100"
    "0 \<le> minute s" "minute s < 100" "0 \<le> minute t" "minute t < 100"
    "0 \<le> second s" "second s < 100" "0 \<le> second t" "second t < 100"
    using d [of "year s" "month s"] d [of "year t" "month t"]
    by (simp_all add: valid_datetime_def valid_fields_def)
  have "year s = year t" using r e by (intro zpad4_inj) simp_all
  moreover have "month s = month t" using r e by (intro zpad2_inj) simp_all
  moreover have "day s = day t" using r e by (intro zpad2_inj) simp_all
  moreover have "hour s = hour t" using r e by (intro zpad2_inj) simp_all
  moreover have "minute s = minute t" using r e by (intro zpad2_inj) simp_all
  moreover have "second s = second t" using r e by (intro zpad2_inj) simp_all
  ultimately show ?thesis by simp
qed

lemma report_path_differs:
  assumes "valid_datetime t1" "valid_datetime t1'"
    "(year t1, month t1, day t1, hour t1, minute t1, second t1) \<noteq>
     (year t1', month t1', day t1', hour t1', minute t1', second t1')"
  shows "report_path name t1 \<noteq> report_path name t1'"
proof
  assume "report_path name t1 = report_path name t1'"
  then have "strftime_stamp t1 = strftime_stamp t1'" by (simp add: report_path_def)
  from strftime_stamp_inj [OF assms(1,2) this] assms(3) show False by simp
qed

text \<open>
  C9, as the code has it. Given a text that is not empty, the report writer writes the
  text, unchanged, between the banner lines that carry the investigation name and the
  generation time, to the file \<open>ai_analysis_<YYYYMMDD_HHMMSS>.txt\<close> named after the
  reading of the clock, and returns that path; no other file changes. A later call
  whose clock reading differs in the year, month, day, hour, minute or second writes to
  another file and leaves the earlier report as it is.
\<close>

theorem report_written:
  "(analysis_text \<noteq> [] \<longrightarrow>
      save_ai_analysis_to_file d name analysis_text t1 t2 =
        (d(report_path name t1 \<mapsto> report_content name analysis_text t2),
         Some (report_path name t1))) \<and>
   report_path name t1 = (safe_name name, ''ai_analysis_'' @ strftime_stamp t1 @ ''.txt'') \<and>
   report_content name analysis_text t2 =
     replicate 80 (CHR ''='') @ [CHR 0x0A] @
     ''AI Security Analysis: '' @ name @ [CHR 0x0A] @
     replicate 80 (CHR ''='') @ [CHR 0x0A] @
     ''Generated: '' @ strftime_text t2 @ [CHR 0x0A] @
     replicate 80 (CHR ''='') @ [CHR 0x0A] @
     [CHR 0x0A] @
     analysis_text @ [CHR 0x0A] @
     [CHR 0x0A] @
     replicate 80 (CHR ''='') @ [CHR 0x0A] @
     ''End of AI Analysis'' @ [CHR 0x0A] @
     replicate 80 (CHR ''='') \<and>
   (valid_datetime t1 \<and> valid_datetime t1' \<and>
      (year t1, month t1, day t1, hour t1, minute t1, second t1) \<noteq>
      (year t1', month t1', day t1', hour t1', minute t1', second t1') \<longrightarrow>
      report_path name t1 \<noteq> report_path name t1' \<and>
      fst (save_ai_analysis_to_file
             (fst (save_ai_analysis_to_file d name analysis_text t1 t2)) name text' t1' t2')
          (report_path name t1) =
        fst (save_ai_analysis_to_file d name analysis_text t1 t2) (report_path name t1))"
proof -
  have a: "analysis_text \<noteq> [] \<longrightarrow>
      save_ai_analysis_to_file d name analysis_text t1 t2 =
        (d(report_path name t1 \<mapsto> report_content name analysis_text t2),
         Some (report_path name t1))"
    by (simp add: save_ai_analysis_to_file_def)
  have b: "report_path name t1 = (safe_name name, ''ai_analysis_'' @ strftime_stamp t1 @ ''.txt'')"
    by (simp add: report_path_def)
  have c: "report_content name analysis_text t2 =
     replicate 80 (CHR ''='') @ [CHR 0x0A] @
     ''AI Security Analysis: '' @ name @ [CHR 0x0A] @
     replicate 80 (CHR ''='') @ [CHR 0x0A] @
     ''Generated: '' @ strftime_text t2 @ [CHR 0x0A] @
     replicate 80 (CHR ''='') @ [CHR 0x0A] @
     [CHR 0x0A] @
     analysis_text @ [CHR 0x0A] @
     [CHR 0x0A] @
     replicate 80 (CHR ''='') @ [CHR 0x0A] @
     ''End of AI Analysis'' @ [CHR 0x0A] @
     replicate 80 (CHR ''='')"
    by (simp add: report_content_def join_lines_def)
  have d: "valid_datetime t1 \<and> valid_datetime t1' \<and>
      (year t1, month t1, day t1, hour t1, minute t1, second t1) \<noteq>
      (year t1', month t1', day t1', hour t1', minute t1', second t1') \<longrightarrow>
      report_path name t1 \<noteq> report_path name t1' \<and>
      fst (save_ai_analysis_to_file
             (fst (save_ai_analysis_to_file d name analysis_text t1 t2)) name text' t1' t2')
          (report_path name t1) =
        fst (save_ai_analysis_to_file d name analysis_text t1 t2) (report_path name t1)"
  proof (intro impI, elim conjE)
    assume h: "valid_datetime t1" "valid_datetime t1'"
      "(year t1, month t1, day t1, hour t1, minute t1, second t1) \<noteq>
       (year t1', month t1', day t1', hour t1', minute t1', second t1')"
    have ne: "report_path name t1 \<noteq> report_path name t1'"
      using h by (rule report_path_differs)
    then have "fst (save_ai_analysis_to_file d0 name text' t1' t2') (report_path name t1) =
        d0 (report_path name t1)" for d0
      by (simp add: save_ai_analysis_to_file_def)
    with ne show "report_path name t1 \<noteq> report_path name t1' \<and>
      fst (save_ai_analysis_to_file
             (fst (save_ai_analysis_to_file d name analysis_text t1 t2)) name text' t1' t2')
          (report_path name t1) =
        fst (save_ai_analysis_to_file d name analysis_text t1 t2) (report_path name t1)"
      by simp
  qed
  from a b c d show ?thesis by blast
qed

theorem report_written_witness:
  "''first report'' \<noteq> [] \<and> valid_datetime clock \<and>
   valid_datetime (clock\<lparr>second := 1\<rparr>) \<and>
   (year clock, month clock, day clock, hour clock, minute clock, second clock) \<noteq>
   (year (clock\<lparr>second := 1\<rparr>), month (clock\<lparr>second := 1\<rparr>), day (clock\<lparr>second := 1\<rparr>),
    hour (clock\<lparr>second := 1\<rparr>), minute (clock\<lparr>second := 1\<rparr>), second (clock\<lparr>second := 1\<rparr>)) \<and>
   fst (save_ai_analysis_to_file
          (fst (save_ai_analysis_to_file Map.empty ''case'' ''first report'' clock clock))
          ''case'' ''second report'' (clock\<lparr>second := 1\<rparr>) (clock\<lparr>second := 1\<rparr>))
       (report_path ''case'' clock) =
     Some (report_content ''case'' ''first report'' clock) \<and>
   snd (save_ai_analysis_to_file Map.empty ''case'' ''first report'' clock clock) =
     Some (''case'', ''ai_analysis_20250601_120000.txt'')"
proof -
  have h1: "''first report'' \<noteq> []" by simp
  have h2: "valid_datetime clock" "valid_datetime (clock\<lparr>second := 1\<rparr>)"
    by (simp_all add: valid_datetime_def valid_fields_def clock_def mk_datetime_def
          days_in_month_def)
  have h3: "(year clock, month clock, day clock, hour clock, minute clock, second clock) \<noteq>
   (year (clock\<lparr>second := 1\<rparr>), month (clock\<lparr>second := 1\<rparr>), day (clock\<lparr>second := 1\<rparr>),
    hour (clock\<lparr>second := 1\<rparr>), minute (clock\<lparr>second := 1\<rparr>), second (clock\<lparr>second := 1\<rparr>))"
    by (simp add: clock_def mk_datetime_def)
  note inst = report_written [of "''first report''" Map.empty "''case''" clock clock
      "clock\<lparr>second := 1\<rparr>" "''second report''" "clock\<lparr>second := 1\<rparr>"]
  from inst h1 have w: "save_ai_analysis_to_file Map.empty ''case'' ''first report'' clock clock =
        (Map.empty(report_path ''case'' clock \<mapsto> report_content ''case'' ''first report'' clock),
         Some (report_path ''case'' clock))" by blast
  from inst h2 h3 have k: "fst (save_ai_analysis_to_file
          (fst (save_ai_analysis_to_file Map.empty ''case'' ''first report'' clock clock))
          ''case'' ''second report'' (clock\<lparr>second := 1\<rparr>) (clock\<lparr>second := 1\<rparr>))
       (report_path ''case'' clock) =
     fst (save_ai_analysis_to_file Map.empty ''case'' ''first report'' clock clock)
       (report_path ''case'' clock)" by blast
  have p: "report_path ''case'' clock = (''case'', ''ai_analysis_20250601_120000.txt'')"
    by code_simp
  have k': "fst (save_ai_analysis_to_file
          (fst (save_ai_analysis_to_file Map.empty ''case'' ''first report'' clock clock))
          ''case'' ''second report'' (clock\<lparr>second := 1\<rparr>) (clock\<lparr>second := 1\<rparr>))
       (report_path ''case'' clock) =
     Some (report_content ''case'' ''first report'' clock)"
    using k unfolding w by simp
  have w': "snd (save_ai_analysis_to_file Map.empty ''case'' ''first report'' clock clock) =
     Some (''case'', ''ai_analysis_20250601_120000.txt'')"
    unfolding w p by simp
  from h1 h2 h3 k' w' show ?thesis by blast
qed

text \<open>
  C9 as it is stated never overwrites a report. The file name has the time to the second
  and the file is opened for writing without a check: two calls within the same second
  name the same file, and the second report replaces the first.
\<close>

theorem same_second_counterexample:
  "fst (save_ai_analysis_to_file
          (fst (save_ai_analysis_to_file Map.empty ''case'' ''first report'' clock clock))
          ''case'' ''second report'' clock clock)
       (report_path ''case'' clock) =
     Some (report_content ''case'' ''second report'' clock) \<and>
   report_content ''case'' ''second report'' clock \<noteq> report_content ''case'' ''first report'' clock \<and>
   snd (report_path ''case'' clock) = ''ai_analysis_20250601_120000.txt''"
proof -
  have a: "fst (save_ai_analysis_to_file
          (fst (save_ai_analysis_to_file Map.empty ''case'' ''first report'' clock clock))
          ''case'' ''second report'' clock clock)
       (report_path ''case'' clock) =
     Some (report_content ''case'' ''second report'' clock)"
    by (simp add: save_ai_analysis_to_file_def)
  have b: "report_content ''case'' ''second report'' clock \<noteq> report_content ''case'' ''first report'' clock"
    by (simp add: report_content_def join_lines_def)
  have c: "snd (report_path ''case'' clock) = ''ai_analysis_20250601_120000.txt''"
    by code_simp
  from a b c show ?thesis by blast
qed

section \<open>Deleting the selected row\<close>






section \<open>Timezone annotations\<close>

lemma digit_not_space: "is_digit c \<Longrightarrow> \<not> is_space c"
  by (auto simp: is_digit_def is_space_def Let_def)

lemma sign_not_space: "is_sign c \<Longrightarrow> \<not> is_space c"
  by (auto simp: is_sign_def is_space_def Let_def)

lemma Z_not_space: "\<not> is_space (CHR ''Z'')"
  by (simp add: is_space_def)

lemma tz_annotation_cases:
  assumes "tz_annotation off"
  obtains "off = ''Z''"
  | sg a b d e where "off = [sg, a, b, CHR '':'', d, e]" "is_sign sg" "is_digit a" "is_digit b"
      "is_digit d" "is_digit e"
  using assms by (auto simp: tz_annotation_def split: list.splits)

lemma tz_annotation_ends:
  "tz_annotation off \<Longrightarrow> off \<noteq> [] \<and> \<not> is_space (hd off) \<and> \<not> is_space (last off) \<and>
     last off \<noteq> CHR 0x0A"
  by (erule tz_annotation_cases)
     (auto simp: Z_not_space digit_not_space sign_not_space is_digit_def)

lemma tz_match_annotation: "tz_annotation off \<Longrightarrow> tz_match off = Some []"
  by (erule tz_annotation_cases)
     (auto simp: tz_match_def two_digits_end_def at_end_def is_sign_def)

lemma tz_match_SomeD:
  "tz_match t = Some r \<Longrightarrow> at_end r \<and>
     (t = CHR ''Z'' # r \<or>
      (\<exists>sg a b d e. is_sign sg \<and> is_digit e \<and>
         (t = [sg, a, b, CHR '':'', d, e] @ r \<or> t = [sg, a, b, d, e] @ r)))"
  by (auto simp: tz_match_def two_digits_end_def split: list.splits if_splits option.splits)

lemma tz_match_before_annotation:
  assumes "tz_annotation off"
  shows "tz_match (c # s @ off) = None"
proof (rule ccontr)
  assume "tz_match (c # s @ off) \<noteq> None"
  then obtain r where r: "tz_match (c # s @ off) = Some r" by auto
  from tz_annotation_ends [OF assms] have e: "off \<noteq> []" "last off \<noteq> CHR 0x0A" by simp_all
  from tz_match_SomeD [OF r] have ae: "at_end r"
    and forms: "c # s @ off = CHR ''Z'' # r \<or>
      (\<exists>sg a b d e. is_sign sg \<and> is_digit e \<and>
         (c # s @ off = [sg, a, b, CHR '':'', d, e] @ r \<or> c # s @ off = [sg, a, b, d, e] @ r))"
    by simp_all
  have lt: "last (c # s @ off) = last off" using e(1) by simp
  have "r = []"
  proof (rule ccontr)
    assume "r \<noteq> []"
    with ae have rn: "r = [CHR 0x0A]" by (simp add: at_end_def)
    from forms have "last (c # s @ off) = CHR 0x0A" unfolding rn by auto
    with lt e(2) show False by simp
  qed
  with forms have f: "c # s @ off = ''Z'' \<or>
      (\<exists>sg a b d e. is_digit e \<and>
         (c # s @ off = [sg, a, b, CHR '':'', d, e] \<or> c # s @ off = [sg, a, b, d, e]))"
    by auto
  from assms show False
  proof (cases rule: tz_annotation_cases)
    case 1
    from f have "last (c # s @ off) \<noteq> CHR ''Z'' \<or> s @ off = []"
      by (auto simp: is_digit_def)
    with lt 1 show False by simp
  next
    case (2 sg a b d e)
    then have "length (c # s @ off) \<ge> 7" by simp
    moreover from f have "length (c # s @ off) \<le> 6" by (auto dest: arg_cong [where f = length])
    ultimately show False by simp
  qed
qed

lemma tz_sub_annotation: "tz_annotation off \<Longrightarrow> tz_sub (s @ off) = s"
proof (induction s)
  case Nil
  then obtain c cs where "off = c # cs" using tz_annotation_ends by (cases off) auto
  with Nil show ?case using tz_match_annotation [of off] by simp
next
  case (Cons c s)
  then show ?case using tz_match_before_annotation [of off c s] by simp
qed

lemma dropWhile_same_length: "length (dropWhile P s) = length s \<Longrightarrow> dropWhile P s = s"
  by (metis append_self_conv2 length_append length_0_conv add_cancel_right_left
        takeWhile_dropWhile_id)

lemma strip_fixed: "strip s = s \<Longrightarrow> lstrip s = s"
proof -
  assume h: "strip s = s"
  have "length (strip s) \<le> length (lstrip s)"
    using length_dropWhile_le [of is_space "rev (lstrip s)"] by (simp add: strip_def rstrip_def)
  moreover have "length (lstrip s) \<le> length s" by (simp add: lstrip_def length_dropWhile_le)
  ultimately have "length (lstrip s) = length s" using h by simp
  then show ?thesis unfolding lstrip_def by (rule dropWhile_same_length)
qed

lemma strip_append_annotation:
  assumes "strip s = s" "tz_annotation off"
  shows "strip (s @ off) = s @ off"
proof -
  from tz_annotation_ends [OF assms(2)]
  have e: "off \<noteq> []" "\<not> is_space (hd off)" "\<not> is_space (last off)" by simp_all
  have l: "lstrip (s @ off) = s @ off"
  proof (cases s)
    case Nil
    with e show ?thesis by (cases off) (simp_all add: lstrip_def)
  next
    case (Cons c cs)
    from strip_fixed [OF assms(1)] Cons have "\<not> is_space c"
      using length_dropWhile_le [of is_space cs] by (auto simp: lstrip_def)
    with Cons show ?thesis by (simp add: lstrip_def)
  qed
  obtain b x where bx: "off = b @ [x]" using e(1) by (cases off rule: rev_cases) auto
  with e(3) have "\<not> is_space x" by simp
  then have "rstrip (s @ off) = s @ off" by (simp add: rstrip_def bx)
  with l show ?thesis by (simp add: strip_def)
qed

lemma dt_lt_same: "dt_lt t t = Inr False"
  by (cases "tzinfo t") (simp_all add: dt_lt_def)

text \<open>
  C8, as the desktop parser has it. Let \<open>s\<close> be a trimmed string and \<open>off\<close> an
  annotation \<open>Z\<close>, \<open>+HH:MM\<close> or \<open>-HH:MM\<close>, such that no format accepts \<open>s\<close> followed by
  \<open>off\<close>. Then the annotation is removed and not applied: the time of the annotated
  string is the ISO reading of \<open>s\<close> alone, or the reading of the clock when \<open>s\<close> has no
  ISO reading. It is equal to the time of \<open>s\<close> itself in two cases: when no format
  accepts \<open>s\<close> and \<open>s\<close> does not itself end in something that the removal of
  annotations takes away (\<open>tz_sub s = s\<close>), and when a format reads \<open>s\<close> with the
  result of the ISO reading of \<open>s\<close>. Comparing a time with an equal one does not raise.
\<close>

theorem annotation_discarded:
  "(tz_annotation off \<and> strip s = s \<and> try_formats (s @ off) formats = Inr None \<longrightarrow>
      parse_timestamp isoparse now (s @ off) =
        (case isoparse (replace_char (CHR ''T'') (CHR '' '') s) of
           Inr t \<Rightarrow> Inr (t, [])
         | Inl e \<Rightarrow> Inr (now, [warning (s @ off)]))) \<and>
   (tz_annotation off \<and> strip s = s \<and> try_formats (s @ off) formats = Inr None \<and>
    try_formats s formats = Inr None \<and> tz_sub s = s \<longrightarrow>
      canonical_time isoparse now (s @ off) = canonical_time isoparse now s) \<and>
   (tz_annotation off \<and> strip s = s \<and> try_formats (s @ off) formats = Inr None \<and>
    try_formats s formats = Inr (Some t) \<and>
    isoparse (replace_char (CHR ''T'') (CHR '' '') s) = Inr t \<longrightarrow>
      canonical_time isoparse now (s @ off) = Inr t \<and> canonical_time isoparse now s = Inr t) \<and>
   dt_lt t t = Inr False"
proof -
  have p: "parse_timestamp isoparse now (s @ off) =
        (case isoparse (replace_char (CHR ''T'') (CHR '' '') s) of
           Inr t \<Rightarrow> Inr (t, [])
         | Inl e \<Rightarrow> Inr (now, [warning (s @ off)]))"
    if "tz_annotation off" "strip s = s" "try_formats (s @ off) formats = Inr None"
    using that by (simp add: parse_timestamp_def strip_append_annotation tz_sub_annotation)
  have q: "canonical_time isoparse now (s @ off) = canonical_time isoparse now s"
    if "tz_annotation off" "strip s = s" "try_formats (s @ off) formats = Inr None"
      "try_formats s formats = Inr None" "tz_sub s = s"
    using that p [OF that(1-3)]
    by (simp add: canonical_time_def parse_timestamp_def split: sum.splits)
  have r: "canonical_time isoparse now (s @ off) = Inr t \<and> canonical_time isoparse now s = Inr t"
    if "tz_annotation off" "strip s = s" "try_formats (s @ off) formats = Inr None"
      "try_formats s formats = Inr (Some t)"
      "isoparse (replace_char (CHR ''T'') (CHR '' '') s) = Inr t"
    using that p [OF that(1-3)]
    by (simp add: canonical_time_def parse_timestamp_def)
  from p q r dt_lt_same show ?thesis by blast
qed

theorem annotation_discarded_witness:
  "tz_annotation ''+05:00'' \<and> tz_annotation ''Z'' \<and>
   strip ''2024-01-15 10:00:00'' = ''2024-01-15 10:00:00'' \<and>
   strip ''2024-01-15T10:00'' = ''2024-01-15T10:00'' \<and>
   try_formats (''2024-01-15 10:00:00'' @ ''+05:00'') formats = Inr None \<and>
   try_formats (''2024-01-15T10:00'' @ ''Z'') formats = Inr None \<and>
   try_formats ''2024-01-15T10:00'' formats = Inr None \<and>
   tz_sub ''2024-01-15T10:00'' = ''2024-01-15T10:00'' \<and>
   try_formats ''2024-01-15 10:00:00'' formats = Inr (Some (mk_datetime 2024 1 15 10 0 0 0 None)) \<and>
   fromisoformat (replace_char (CHR ''T'') (CHR '' '') ''2024-01-15 10:00:00'') =
     Inr (mk_datetime 2024 1 15 10 0 0 0 None) \<and>
   canonical_time fromisoformat clock (''2024-01-15 10:00:00'' @ ''+05:00'') =
     Inr (mk_datetime 2024 1 15 10 0 0 0 None) \<and>
   canonical_time fromisoformat clock ''2024-01-15 10:00:00'' =
     Inr (mk_datetime 2024 1 15 10 0 0 0 None) \<and>
   canonical_time fromisoformat clock (''2024-01-15T10:00'' @ ''Z'') =
     canonical_time fromisoformat clock ''2024-01-15T10:00'' \<and>
   parse_timestamp fromisoformat clock (''2024-01-15T10:00'' @ ''Z'') =
     Inr (mk_datetime 2024 1 15 10 0 0 0 None, [])"
proof -
  have a: "tz_annotation ''+05:00''" "tz_annotation ''Z''" by code_simp+
  have b: "strip ''2024-01-15 10:00:00'' = ''2024-01-15 10:00:00''"
    "strip ''2024-01-15T10:00'' = ''2024-01-15T10:00''" by code_simp+
  have c: "try_formats (''2024-01-15 10:00:00'' @ ''+05:00'') formats = Inr None" by code_simp
  have d: "try_formats (''2024-01-15T10:00'' @ ''Z'') formats = Inr None" by code_simp
  have e: "try_formats ''2024-01-15T10:00'' formats = Inr None" by code_simp
  have f: "tz_sub ''2024-01-15T10:00'' = ''2024-01-15T10:00''" by code_simp
  have g: "try_formats ''2024-01-15 10:00:00'' formats =
      Inr (Some (mk_datetime 2024 1 15 10 0 0 0 None))" by code_simp
  have h: "fromisoformat (replace_char (CHR ''T'') (CHR '' '') ''2024-01-15 10:00:00'') =
     Inr (mk_datetime 2024 1 15 10 0 0 0 None)" by code_simp
  have i: "fromisoformat (replace_char (CHR ''T'') (CHR '' '') ''2024-01-15T10:00'') =
     Inr (mk_datetime 2024 1 15 10 0 0 0 None)" by code_simp
  note one = annotation_discarded [of "''+05:00''" "''2024-01-15 10:00:00''" fromisoformat clock
      "mk_datetime 2024 1 15 10 0 0 0 None"]
  note two = annotation_discarded [of "''Z''" "''2024-01-15T10:00''" fromisoformat clock
      "mk_datetime 2024 1 15 10 0 0 0 None"]
  from one a(1) b(1) c g h
  have r1: "canonical_time fromisoformat clock (''2024-01-15 10:00:00'' @ ''+05:00'') =
     Inr (mk_datetime 2024 1 15 10 0 0 0 None)"
    "canonical_time fromisoformat clock ''2024-01-15 10:00:00'' =
     Inr (mk_datetime 2024 1 15 10 0 0 0 None)" by blast+
  from two a(2) b(2) d e f
  have r2: "canonical_time fromisoformat clock (''2024-01-15T10:00'' @ ''Z'') =
     canonical_time fromisoformat clock ''2024-01-15T10:00''" by blast
  from two a(2) b(2) d
  have "parse_timestamp fromisoformat clock (''2024-01-15T10:00'' @ ''Z'') =
        (case fromisoformat (replace_char (CHR ''T'') (CHR '' '') ''2024-01-15T10:00'') of
           Inr t \<Rightarrow> Inr (t, [])
         | Inl e \<Rightarrow> Inr (clock, [warning (''2024-01-15T10:00'' @ ''Z'')]))" by blast
  then have r3: "parse_timestamp fromisoformat clock (''2024-01-15T10:00'' @ ''Z'') =
     Inr (mk_datetime 2024 1 15 10 0 0 0 None, [])"
    unfolding i by simp
  from a b c d e f g h r1 r2 r3 show ?thesis by blast
qed

text \<open>
  C8 as it is stated holds for every pair of strings that differ by an annotation. In
  the desktop parser \<open>15/01/2024 14:30:25\<close> is read by the day/month/year format, while
  \<open>15/01/2024 14:30:25Z\<close> is read by no format and, without the \<open>Z\<close>, has no ISO reading:
  its time is the reading of the clock. The web parser removes nothing:
  \<open>2024-01-15 10:00:00+05:00\<close> becomes an aware time, and comparing it with the naive
  time of \<open>2024-01-15 10:00:00\<close> raises \<open>TypeError\<close>.
\<close>

theorem annotation_counterexample:
  "canonical_time fromisoformat clock ''15/01/2024 14:30:25'' =
     Inr (mk_datetime 2024 1 15 14 30 25 0 None) \<and>
   canonical_time fromisoformat clock ''15/01/2024 14:30:25Z'' = Inr clock \<and>
   clock \<noteq> mk_datetime 2024 1 15 14 30 25 0 None \<and>
   web_canonical_time fromisoformat clock ''2024-01-15 10:00:00'' =
     Inr (mk_datetime 2024 1 15 10 0 0 0 None) \<and>
   web_canonical_time fromisoformat clock ''2024-01-15 10:00:00+05:00'' =
     Inr (mk_datetime 2024 1 15 10 0 0 0 (Some 18000000000)) \<and>
   dt_lt (mk_datetime 2024 1 15 10 0 0 0 None) (mk_datetime 2024 1 15 10 0 0 0 (Some 18000000000)) =
     Inl TypeError"
proof -
  have a: "canonical_time fromisoformat clock ''15/01/2024 14:30:25'' =
     Inr (mk_datetime 2024 1 15 14 30 25 0 None)" by code_simp
  have b: "canonical_time fromisoformat clock ''15/01/2024 14:30:25Z'' = Inr clock" by code_simp
  have c: "clock \<noteq> mk_datetime 2024 1 15 14 30 25 0 None"
    by (simp add: clock_def mk_datetime_def)
  have d: "web_canonical_time fromisoformat clock ''2024-01-15 10:00:00'' =
     Inr (mk_datetime 2024 1 15 10 0 0 0 None)" by code_simp
  have e: "web_canonical_time fromisoformat clock ''2024-01-15 10:00:00+05:00'' =
     Inr (mk_datetime 2024 1 15 10 0 0 0 (Some 18000000000))" by code_simp
  have f: "dt_lt (mk_datetime 2024 1 15 10 0 0 0 None)
      (mk_datetime 2024 1 15 10 0 0 0 (Some 18000000000)) = Inl TypeError"
    by (simp add: dt_lt_def mk_datetime_def)
  from a b c d e f show ?thesis by blast
qed

end
